theory Spec2Isabelle
  imports Main "HOL-Library.Word"
begin

section \<open>Byte strings\<close>

text \<open>
  A \<^verbatim>\<open>std::string\<close> is a sequence of bytes that may contain NUL; HOL's \<^typ>\<open>string\<close>
  (a list of 8-bit \<^typ>\<open>char\<close>) is exactly that. A \<^verbatim>\<open>const char *\<close> handed to a C
  function is read up to the first NUL byte: \<^verbatim>\<open>s.c_str()\<close> seen by GLib is the prefix of
  \<^verbatim>\<open>s\<close> before its first NUL, and a \<^verbatim>\<open>std::string\<close> constructed from a
  \<^verbatim>\<open>gchar *\<close> takes the bytes before the first NUL of the buffer.
\<close>

abbreviation CR :: char where "CR \<equiv> CHR 0x0D"
abbreviation LF :: char where "LF \<equiv> CHR 0x0A"
abbreviation NUL :: char where "NUL \<equiv> CHR 0x00"

definition c_str :: "string \<Rightarrow> string" where
  "c_str s = takeWhile (\<lambda>ch. ch \<noteq> NUL) s"

section \<open>The line codec: \<^verbatim>\<open>splitLines\<close> and \<^verbatim>\<open>joinWithCrlf\<close>\<close>

text \<open>
  \<^verbatim>\<open>splitLines\<close> (lines 24-46): the range-for over the bytes of \<^verbatim>\<open>data\<close>, with the two
  locals \<^verbatim>\<open>lines\<close> and \<^verbatim>\<open>current\<close> threaded through; the function's last statement
  flushes a non-empty \<^verbatim>\<open>current\<close>.
\<close>

fun splitLines_loop :: "string \<Rightarrow> string list \<Rightarrow> string \<Rightarrow> string list \<times> string" where
  "splitLines_loop [] lines current = (lines, current)"
| "splitLines_loop (ch # rest) lines current =
     (if ch = CR then splitLines_loop rest lines current
      else if ch = LF then
        (if current \<noteq> [] then splitLines_loop rest (lines @ [current]) []
         else splitLines_loop rest (lines @ [[]]) current)
      else splitLines_loop rest lines (current @ [ch]))"

definition splitLines :: "string \<Rightarrow> string list" where
  "splitLines data =
     (case splitLines_loop data [] [] of
        (lines, current) \<Rightarrow> if current \<noteq> [] then lines @ [current] else lines)"

text \<open>
  \<^verbatim>\<open>joinWithCrlf\<close> (lines 48-55): the loop over the index \<^verbatim>\<open>i\<close>, appending to the
  stream \<^verbatim>\<open>oss\<close>.
\<close>

function joinWithCrlf_loop :: "string list \<Rightarrow> nat \<Rightarrow> string \<Rightarrow> string" where
  "joinWithCrlf_loop items i oss =
     (if i < length items then joinWithCrlf_loop items (i + 1) (oss @ items ! i @ [CR, LF])
      else oss)"
  by pat_completeness auto
termination
  by (relation "measure (\<lambda>(items, i, oss). length items - i)") auto

declare joinWithCrlf_loop.simps [simp del]

definition joinWithCrlf :: "string list \<Rightarrow> string" where
  "joinWithCrlf items = joinWithCrlf_loop items 0 []"

section \<open>The payload built by \<^verbatim>\<open>WriteFilePaths\<close>\<close>

record UriListData =
  uri_list :: string
  plain_text :: string

text \<open>
  \<^verbatim>\<open>g_filename_to_uri\<close> and \<^verbatim>\<open>g_filename_from_uri\<close> are GLib's, not this repository's:
  the functions below take them as parameters, of type \<^typ>\<open>string \<Rightarrow> string option\<close>
  (\<^term>\<open>None\<close> is the NULL return). The argument is the C string the source passes
  (\<^verbatim>\<open>path.c_str()\<close>, \<^verbatim>\<open>line.c_str()\<close>), the result the buffer returned, which the source
  copies into a \<^verbatim>\<open>std::string\<close> up to its first NUL.

  Lines 158-161 of \<^verbatim>\<open>WriteFilePaths\<close>: the call on \<^verbatim>\<open>path.c_str()\<close> and the
  \<^verbatim>\<open>std::string\<close> built from the result; then lines 154-167, the loop collecting
  \<^verbatim>\<open>uris\<close>, where a failed conversion adds nothing.
\<close>

definition uri_of_path :: "(string \<Rightarrow> string option) \<Rightarrow> string \<Rightarrow> string option" where
  "uri_of_path to_uri path = map_option c_str (to_uri (c_str path))"

fun WriteFilePaths_uris :: "(string \<Rightarrow> string option) \<Rightarrow> string list \<Rightarrow> string list \<Rightarrow> string list" where
  "WriteFilePaths_uris to_uri [] uris = uris"
| "WriteFilePaths_uris to_uri (path # rest) uris =
     (case uri_of_path to_uri path of
        Some uri \<Rightarrow> WriteFilePaths_uris to_uri rest (uris @ [uri])
      | None \<Rightarrow> WriteFilePaths_uris to_uri rest uris)"

text \<open>Lines 172-180: the plain-text fallback, a loop over the index \<^verbatim>\<open>i\<close>.\<close>

function WriteFilePaths_plain :: "string list \<Rightarrow> nat \<Rightarrow> string \<Rightarrow> string" where
  "WriteFilePaths_plain file_paths i plain =
     (if i < length file_paths then
        WriteFilePaths_plain file_paths (i + 1)
          (plain @ file_paths ! i @ (if i + 1 < length file_paths then [LF] else []))
      else plain)"
  by pat_completeness auto
termination
  by (relation "measure (\<lambda>(file_paths, i, plain). length file_paths - i)") auto

declare WriteFilePaths_plain.simps [simp del]

text \<open>Lines 153-180: the payload that \<^verbatim>\<open>WriteFilePaths\<close> allocates and fills.\<close>

definition WriteFilePaths_payload :: "(string \<Rightarrow> string option) \<Rightarrow> string list \<Rightarrow> UriListData" where
  "WriteFilePaths_payload to_uri file_paths =
     \<lparr> uri_list = joinWithCrlf (WriteFilePaths_uris to_uri file_paths []),
       plain_text = WriteFilePaths_plain file_paths 0 [] \<rparr>"

section \<open>The decoder of \<^verbatim>\<open>ReadFilePaths\<close>\<close>

text \<open>
  Lines 129-132: the call on \<^verbatim>\<open>line.c_str()\<close> and the \<^verbatim>\<open>std::string\<close> built from the
  returned buffer. Lines 121-138: the loop over \<^verbatim>\<open>lines\<close>, with \<^verbatim>\<open>result\<close> threaded
  through. The indexed read \<^verbatim>\<open>line[0]\<close> is guarded by \<^verbatim>\<open>!line.empty()\<close>, as in the
  source.
\<close>

definition path_of_line :: "(string \<Rightarrow> string option) \<Rightarrow> string \<Rightarrow> string option" where
  "path_of_line from_uri line = map_option c_str (from_uri (c_str line))"

fun ReadFilePaths_lines :: "(string \<Rightarrow> string option) \<Rightarrow> string list \<Rightarrow> string list \<Rightarrow> string list" where
  "ReadFilePaths_lines from_uri [] result = result"
| "ReadFilePaths_lines from_uri (line # rest) result =
     (if line = [] then ReadFilePaths_lines from_uri rest result
      else if line \<noteq> [] \<and> line ! 0 = CHR ''#'' then ReadFilePaths_lines from_uri rest result
      else (case path_of_line from_uri line of
              Some filename \<Rightarrow> ReadFilePaths_lines from_uri rest (result @ [filename])
            | None \<Rightarrow> ReadFilePaths_lines from_uri rest result))"

text \<open>Lines 120-140: split the bytes, run the loop from the empty \<^verbatim>\<open>result\<close>.\<close>

definition ReadFilePaths_decode :: "(string \<Rightarrow> string option) \<Rightarrow> string \<Rightarrow> string list" where
  "ReadFilePaths_decode from_uri data = ReadFilePaths_lines from_uri (splitLines data) []"

section \<open>The URI conversions of the scenarios\<close>

text \<open>
  Modelled from the spec: \<^verbatim>\<open>g_filename_to_uri\<close> and \<^verbatim>\<open>g_filename_from_uri\<close> (GLib, no
  source in the repository). The spec says: "each path is converted to a \<^verbatim>\<open>file://\<close> URI
  with percent-encoding applied to reserved and non-ASCII bytes", a URI is an "absolute
  \<^verbatim>\<open>file://\<close>-scheme string, percent-encoded per standard URI rules", and "successful
  \<^verbatim>\<open>file://\<close> URI parses yield a UTF-8 filesystem path". Here: letters, digits, the
  unreserved marks \<^verbatim>\<open>- . _ ~\<close> and the path separator stay as they are, every other byte
  becomes \<^verbatim>\<open>%XX\<close> in upper-case hexadecimal; only an absolute path converts; parsing
  accepts \<^verbatim>\<open>file://\<close> followed by an absolute path without \<^verbatim>\<open>#\<close>, and rejects a
  malformed escape and \<^verbatim>\<open>%00\<close>. These two definitions are used to instantiate the
  parameters above at concrete inputs.
\<close>

definition hex_digit :: "nat \<Rightarrow> char" where
  "hex_digit n = char_of (if n < 10 then 48 + n else 55 + n)"

definition unhex :: "char \<Rightarrow> nat option" where
  "unhex c =
     (let n = (of_char c :: nat) in
      if 48 \<le> n \<and> n \<le> 57 then Some (n - 48)
      else if 65 \<le> n \<and> n \<le> 70 then Some (n - 55)
      else if 97 \<le> n \<and> n \<le> 102 then Some (n - 87)
      else None)"

definition uri_unreserved :: "char \<Rightarrow> bool" where
  "uri_unreserved c =
     (let n = (of_char c :: nat) in
      (48 \<le> n \<and> n \<le> 57) \<or> (65 \<le> n \<and> n \<le> 90) \<or> (97 \<le> n \<and> n \<le> 122)
      \<or> n = 45 \<or> n = 46 \<or> n = 95 \<or> n = 126 \<or> n = 47)"

fun uri_escape :: "string \<Rightarrow> string" where
  "uri_escape [] = []"
| "uri_escape (c # cs) =
     (if uri_unreserved c then c # uri_escape cs
      else CHR ''%'' # hex_digit (of_char c div 16) # hex_digit (of_char c mod 16) # uri_escape cs)"

fun uri_unescape :: "string \<Rightarrow> string option" where
  "uri_unescape [] = Some []"
| "uri_unescape (c # cs) =
     (if c = CHR ''%'' then
        (case cs of
           h # l # rest \<Rightarrow>
             (case (unhex h, unhex l) of
                (Some a, Some b) \<Rightarrow>
                  if 16 * a + b = 0 then None
                  else map_option ((#) (char_of (16 * a + b))) (uri_unescape rest)
              | _ \<Rightarrow> None)
         | _ \<Rightarrow> None)
      else map_option ((#) c) (uri_unescape cs))"

definition g_filename_to_uri :: "string \<Rightarrow> string option" where
  "g_filename_to_uri filename =
     (if filename \<noteq> [] \<and> hd filename = CHR ''/'' then Some (''file://'' @ uri_escape filename)
      else None)"

definition g_filename_from_uri :: "string \<Rightarrow> string option" where
  "g_filename_from_uri uri =
     (if take 7 uri = ''file://'' then
        (let path_part = drop 7 uri in
         if CHR ''#'' \<in> set path_part then None
         else if path_part \<noteq> [] \<and> hd path_part = CHR ''/'' then uri_unescape path_part
         else None)
      else None)"

section \<open>The session, the clipboard and the heap\<close>

text \<open>
  The graphical session is GTK's, outside the repository. What it answers and cannot be
  derived from the program is an input of each operation (\<open>session_env\<close>); what the
  program itself establishes (the static locals of \<^verbatim>\<open>EnsureGtkInitialized\<close>, the payloads
  on the C++ heap, the current clipboard selection, the session calls made) is the state
  (\<open>world\<close>).
\<close>

type_synonym addr = nat

type_synonym pixbuf = nat

record GtkTargetEntry =
  target :: string
  flags :: nat
  info :: nat

record GtkSelectionData =
  sel_type :: string
  sel_format :: int
  sel_data :: "string option"
  sel_length :: int

datatype gtk_call =
    Gtk_init_check
  | Gtk_clipboard_get
  | Gtk_clipboard_wait_for_contents string
  | Gtk_clipboard_set_with_data "GtkTargetEntry list" addr
  | Gtk_clipboard_store
  | Gtk_clipboard_clear
  | Gtk_clipboard_wait_for_image
  | Gtk_clipboard_wait_is_image_available
  | Gtk_clipboard_set_image pixbuf
  | Gdk_pixbuf_new_from_file string
  | Gdk_pixbuf_save pixbuf string string "int option"
  | G_object_unref pixbuf

datatype selection =
    No_selection
  | Core_offer "GtkTargetEntry list" addr
  | Image_selection pixbuf
  | Foreign_selection "(string \<times> string) list" "pixbuf option"

record session_env =
  gtk_init_check :: bool
  gtk_clipboard_get :: bool
  gdk_pixbuf_new_from_file :: "string \<Rightarrow> pixbuf option"
  gdk_pixbuf_save :: "pixbuf \<Rightarrow> string \<Rightarrow> string \<Rightarrow> bool"
  filename_to_uri :: "string \<Rightarrow> string option"
  filename_from_uri :: "string \<Rightarrow> string option"

record world =
  attempted :: bool
  initialized :: bool
  heap :: "addr \<Rightarrow> UriListData option"
  next_addr :: addr
  deleted :: "addr list"
  clip :: selection
  calls :: "gtk_call list"

definition called :: "gtk_call \<Rightarrow> world \<Rightarrow> world" where
  "called c w = w\<lparr>calls := calls w @ [c]\<rparr>"

text \<open>
  \<^verbatim>\<open>EnsureGtkInitialized\<close> (lines 11-22). \<^verbatim>\<open>gtk_init_check\<close> is called in the first branch
  only; its answer is \<^term>\<open>gtk_init_check env\<close>.
\<close>

definition EnsureGtkInitialized :: "session_env \<Rightarrow> world \<Rightarrow> bool \<times> world" where
  "EnsureGtkInitialized env w =
     (if \<not> attempted w then
        (let w1 = w\<lparr>attempted := True\<rparr>;
             w2 = (called Gtk_init_check w1)\<lparr>initialized := gtk_init_check env\<rparr>
         in (initialized w2, w2))
      else (initialized w, w))"

text \<open>
  A \<^verbatim>\<open>gint\<close> is 32 bits wide: \<^verbatim>\<open>static_cast<int>(data.size())\<close> wraps a size of
  \<open>2^31\<close> or more.
\<close>

definition to_gint :: "nat \<Rightarrow> int" where
  "to_gint n = (int n + 2 ^ 31) mod 2 ^ 32 - 2 ^ 31"

text \<open>
  \<^verbatim>\<open>clipboard_get_func\<close> (lines 63-83). The result is what the callback stores into
  \<^verbatim>\<open>selection_data\<close> through \<^verbatim>\<open>gtk_selection_data_set\<close> (type, format, data pointer,
  length); \<^term>\<open>None\<close> when it returns without storing (a null \<^verbatim>\<open>user_data\<close>).
\<close>

definition clipboard_get_func :: "UriListData option \<Rightarrow> nat \<Rightarrow> GtkSelectionData option" where
  "clipboard_get_func user_data info_tag =
     (case user_data of
        None \<Rightarrow> None
      | Some payload \<Rightarrow>
          if info_tag = 0 then
            Some \<lparr> sel_type = ''text/uri-list'', sel_format = 8,
                   sel_data = Some (uri_list payload),
                   sel_length = to_gint (length (uri_list payload)) \<rparr>
          else
            Some \<lparr> sel_type = ''UTF8_STRING'', sel_format = 8,
                   sel_data = Some (plain_text payload),
                   sel_length = to_gint (length (plain_text payload)) \<rparr>)"

text \<open>
  \<^verbatim>\<open>clipboard_clear_func\<close> (lines 85-89): \<^verbatim>\<open>delete payload\<close>. Deleting a null pointer does
  nothing; every other \<^verbatim>\<open>delete\<close> is logged in \<^term>\<open>deleted\<close> and ends the payload's life.
\<close>

definition clipboard_clear_func :: "addr option \<Rightarrow> world \<Rightarrow> world" where
  "clipboard_clear_func user_data w =
     (case user_data of
        None \<Rightarrow> w
      | Some payload \<Rightarrow> w\<lparr>heap := (heap w)(payload := None), deleted := deleted w @ [payload]\<rparr>)"

text \<open>
  Modelled from the spec: the clipboard of the session (GTK, no source in the repository).
  "When the clipboard later loses ownership (a new selection is set or the clipboard is
  cleared), the session invokes the clear callback exactly once"; "when a paster requests
  one of the offered targets, the session invokes the core's provide callback with a tag
  identifying which representation was requested"; the image channel "does not use the
  selection-offer dance because the session manages the transfer internally". The
  callbacks of an offer are always \<^verbatim>\<open>clipboard_get_func\<close> and \<^verbatim>\<open>clipboard_clear_func\<close>, the
  only pair the program ever passes.
\<close>

definition lose_ownership :: "world \<Rightarrow> world" where
  "lose_ownership w =
     (case clip w of
        Core_offer targets user_data \<Rightarrow> clipboard_clear_func (Some user_data) w
      | _ \<Rightarrow> w)"

definition gtk_clipboard_set_with_data :: "GtkTargetEntry list \<Rightarrow> addr \<Rightarrow> world \<Rightarrow> world" where
  "gtk_clipboard_set_with_data targets user_data w =
     (lose_ownership (called (Gtk_clipboard_set_with_data targets user_data) w))
       \<lparr>clip := Core_offer targets user_data\<rparr>"

definition gtk_clipboard_clear :: "world \<Rightarrow> world" where
  "gtk_clipboard_clear w = (lose_ownership (called Gtk_clipboard_clear w))\<lparr>clip := No_selection\<rparr>"

definition gtk_clipboard_set_image :: "pixbuf \<Rightarrow> world \<Rightarrow> world" where
  "gtk_clipboard_set_image pb w =
     (lose_ownership (called (Gtk_clipboard_set_image pb) w))\<lparr>clip := Image_selection pb\<rparr>"

definition new_owner :: "(string \<times> string) list \<Rightarrow> pixbuf option \<Rightarrow> world \<Rightarrow> world" where
  "new_owner offers img w = (lose_ownership w)\<lparr>clip := Foreign_selection offers img\<rparr>"

definition request_target :: "string \<Rightarrow> world \<Rightarrow> GtkSelectionData option" where
  "request_target tgt w =
     (case clip w of
        Core_offer targets user_data \<Rightarrow>
          (case find (\<lambda>t. target t = tgt) targets of
             None \<Rightarrow> None
           | Some t \<Rightarrow> clipboard_get_func (heap w user_data) (info t))
      | Foreign_selection offers img \<Rightarrow>
          (case map_of offers tgt of
             None \<Rightarrow> None
           | Some bytes \<Rightarrow>
               Some \<lparr> sel_type = tgt, sel_format = 8, sel_data = Some bytes,
                      sel_length = int (length bytes) \<rparr>)
      | _ \<Rightarrow> None)"

definition gtk_clipboard_wait_for_contents :: "string \<Rightarrow> world \<Rightarrow> GtkSelectionData option \<times> world" where
  "gtk_clipboard_wait_for_contents tgt w =
     (request_target tgt w, called (Gtk_clipboard_wait_for_contents tgt) w)"

definition clipboard_image :: "world \<Rightarrow> pixbuf option" where
  "clipboard_image w =
     (case clip w of
        Image_selection pb \<Rightarrow> Some pb
      | Foreign_selection offers img \<Rightarrow> img
      | _ \<Rightarrow> None)"

definition gtk_clipboard_wait_for_image :: "world \<Rightarrow> pixbuf option \<times> world" where
  "gtk_clipboard_wait_for_image w = (clipboard_image w, called Gtk_clipboard_wait_for_image w)"

section \<open>Single-precision floats\<close>

text \<open>
  The argument \<^verbatim>\<open>compression_factor\<close> of \<^verbatim>\<open>SaveClipboardImageAsJpeg\<close> is a \<^verbatim>\<open>float\<close>: 32 bits
  in the IEEE 754 binary32 format, one sign bit, eight exponent bits, 23 fraction bits.
  \<^term>\<open>float_value\<close> reads the bits: a finite value is \<open>m\<close> times \<open>2^e\<close>, negated when the sign
  is set, and is given as the sign, the significand \<open>m\<close> and the exponent \<open>e\<close>.
\<close>

type_synonym float32 = "32 word"

datatype fvalue = NaN | Infinite bool | Finite bool nat int

definition float_value :: "float32 \<Rightarrow> fvalue" where
  "float_value w =
     (let sign = (2 ^ 31 \<le> unat w);
          exponent = (unat w div 2 ^ 23) mod 256;
          fraction = unat w mod 2 ^ 23
      in if exponent = 255 then (if fraction = 0 then Infinite sign else NaN)
         else if exponent = 0 then Finite sign fraction (- 149)
         else Finite sign (2 ^ 23 + fraction) (int exponent - 150))"

fun bit_length :: "nat \<Rightarrow> nat" where
  "bit_length n = (if n = 0 then 0 else Suc (bit_length (n div 2)))"

declare bit_length.simps [simp del]

text \<open>
  The result of an arithmetic operation is its exact result, \<open>n\<close> times \<open>2^e\<close>, rounded to
  the nearest value of the format, ties to the even significand: 24 significant bits, no
  unit below \<open>2^-149\<close>, infinity from \<open>2^128\<close> on.
\<close>

definition round_float32 :: "bool \<Rightarrow> nat \<Rightarrow> int \<Rightarrow> fvalue" where
  "round_float32 sign n e =
     (let q = max (e + int (bit_length n) - 24) (- 149) in
      if q \<le> e then
        (if e \<ge> 0 \<and> n * 2 ^ nat e \<ge> 2 ^ 128 then Infinite sign
         else Finite sign (n * 2 ^ nat (e - q)) q)
      else
        (let s = nat (q - e);
             kept = n div 2 ^ s;
             rest = n mod 2 ^ s;
             half = 2 ^ (s - 1);
             m = (if rest > half \<or> (rest = half \<and> odd kept) then kept + 1 else kept)
         in if q \<ge> 0 \<and> m * 2 ^ nat q \<ge> 2 ^ 128 then Infinite sign else Finite sign m q))"

text \<open>The product of two floats, \<^verbatim>\<open>x * y\<close>.\<close>

definition float_mul :: "fvalue \<Rightarrow> fvalue \<Rightarrow> fvalue" where
  "float_mul x y =
     (case (x, y) of
        (NaN, _) \<Rightarrow> NaN
      | (_, NaN) \<Rightarrow> NaN
      | (Infinite s, Infinite t) \<Rightarrow> Infinite (s \<noteq> t)
      | (Infinite s, Finite t m e) \<Rightarrow> if m = 0 then NaN else Infinite (s \<noteq> t)
      | (Finite s m e, Infinite t) \<Rightarrow> if m = 0 then NaN else Infinite (s \<noteq> t)
      | (Finite s m e, Finite t n f) \<Rightarrow> round_float32 (s \<noteq> t) (m * n) (e + f))"

text \<open>
  The integer part of a float, towards zero; a NaN and an infinity have none.
\<close>

definition truncation :: "fvalue \<Rightarrow> int option" where
  "truncation v =
     (case v of
        NaN \<Rightarrow> None
      | Infinite s \<Rightarrow> None
      | Finite s m e \<Rightarrow>
          (let t = (if e \<ge> 0 then int m * 2 ^ nat e else int (m div 2 ^ nat (- e)))
           in Some (if s then - t else t)))"

text \<open>
  \<^verbatim>\<open>static_cast<int>(x)\<close> truncates. C++ leaves the conversion undefined when the
  truncated value is not an \<^verbatim>\<open>int\<close> (32 bits), which includes a NaN and an infinity; there
  the model takes what the conversion instruction of x86-64 returns, the "integer
  indefinite" value \<open>- 2^31\<close>.
\<close>

definition integer_indefinite :: int where
  "integer_indefinite = - (2 ^ 31)"

definition static_cast_int :: "fvalue \<Rightarrow> int" where
  "static_cast_int v =
     (case truncation v of
        None \<Rightarrow> integer_indefinite
      | Some t \<Rightarrow> if - (2 ^ 31) \<le> t \<and> t \<le> 2 ^ 31 - 1 then t else integer_indefinite)"

text \<open>
  Line 223 of \<^verbatim>\<open>SaveClipboardImageAsJpeg\<close>:
  \<^verbatim>\<open>std::max(0, std::min(100, static_cast<int>(compression_factor * 100.0f)))\<close>. The
  literal \<^verbatim>\<open>100.0f\<close> is the float with the bits \<open>0x42C80000\<close>.
\<close>

definition jpeg_quality :: "float32 \<Rightarrow> int" where
  "jpeg_quality compression_factor =
     max 0 (min 100
       (static_cast_int (float_mul (float_value compression_factor) (float_value 0x42C80000))))"

section \<open>The public operations\<close>

text \<open>\<^verbatim>\<open>ReadFilePaths\<close> (lines 93-141).\<close>

definition ReadFilePaths :: "session_env \<Rightarrow> world \<Rightarrow> string list \<times> world" where
  "ReadFilePaths env w =
     (case EnsureGtkInitialized env w of
        (ok, w1) \<Rightarrow>
          if \<not> ok then ([], w1)
          else
            (let w2 = called Gtk_clipboard_get w1 in
             if \<not> gtk_clipboard_get env then ([], w2)
             else
               (case gtk_clipboard_wait_for_contents ''text/uri-list'' w2 of
                  (None, w3) \<Rightarrow> ([], w3)
                | (Some sel, w3) \<Rightarrow>
                    (case sel_data sel of
                       None \<Rightarrow> ([], w3)
                     | Some data_ptr \<Rightarrow>
                         if sel_length sel \<le> 0 then ([], w3)
                         else
                           (ReadFilePaths_decode (filename_from_uri env)
                              (take (nat (sel_length sel)) data_ptr), w3)))))"

text \<open>
  \<^verbatim>\<open>WriteFilePaths\<close> (lines 143-197). \<^verbatim>\<open>new UriListData()\<close> takes the next unused
  address; the local \<^verbatim>\<open>payload\<close> goes out of scope at the return, and nothing of the
  state but the clipboard keeps the address.
\<close>

definition WriteFilePaths_targets :: "GtkTargetEntry list" where
  "WriteFilePaths_targets =
     [ \<lparr> target = ''text/uri-list'', flags = 0, info = 0 \<rparr>,
       \<lparr> target = ''UTF8_STRING'', flags = 0, info = 1 \<rparr>,
       \<lparr> target = ''STRING'', flags = 0, info = 1 \<rparr> ]"

definition WriteFilePaths :: "session_env \<Rightarrow> string list \<Rightarrow> world \<Rightarrow> world" where
  "WriteFilePaths env file_paths w =
     (case EnsureGtkInitialized env w of
        (ok, w1) \<Rightarrow>
          if \<not> ok then w1
          else
            (let w2 = called Gtk_clipboard_get w1 in
             if \<not> gtk_clipboard_get env then w2
             else
               (let payload = next_addr w2;
                    w3 = w2\<lparr>heap := (heap w2)(payload \<mapsto>
                                WriteFilePaths_payload (filename_to_uri env) file_paths),
                            next_addr := payload + 1\<rparr>;
                    w4 = gtk_clipboard_set_with_data WriteFilePaths_targets payload w3
                in called Gtk_clipboard_store w4)))"

text \<open>\<^verbatim>\<open>ClearClipboard\<close> (lines 199-208).\<close>

definition ClearClipboard :: "session_env \<Rightarrow> world \<Rightarrow> world" where
  "ClearClipboard env w =
     (case EnsureGtkInitialized env w of
        (ok, w1) \<Rightarrow>
          if \<not> ok then w1
          else
            (let w2 = called Gtk_clipboard_get w1 in
             if \<not> gtk_clipboard_get env then w2
             else gtk_clipboard_clear w2))"

text \<open>
  \<^verbatim>\<open>SaveClipboardImageAsJpeg\<close> (lines 210-234). The option \<^verbatim>\<open>quality\<close> is recorded as the
  integer that \<^verbatim>\<open>g_snprintf\<close> prints.
\<close>

definition SaveClipboardImageAsJpeg :: "session_env \<Rightarrow> string \<Rightarrow> float32 \<Rightarrow> world \<Rightarrow> bool \<times> world" where
  "SaveClipboardImageAsJpeg env target_path compression_factor w =
     (case EnsureGtkInitialized env w of
        (ok, w1) \<Rightarrow>
          if \<not> ok then (False, w1)
          else
            (let w2 = called Gtk_clipboard_get w1 in
             if \<not> gtk_clipboard_get env then (False, w2)
             else
               (case gtk_clipboard_wait_for_image w2 of
                  (None, w3) \<Rightarrow> (False, w3)
                | (Some pb, w3) \<Rightarrow>
                    (let quality = jpeg_quality compression_factor;
                         w4 = called (Gdk_pixbuf_save pb target_path ''jpeg'' (Some quality)) w3;
                         saved = gdk_pixbuf_save env pb target_path ''jpeg'';
                         w5 = called (G_object_unref pb) w4
                     in (saved, w5)))))"

text \<open>\<^verbatim>\<open>SaveClipboardImageAsPng\<close> (lines 236-255).\<close>

definition SaveClipboardImageAsPng :: "session_env \<Rightarrow> string \<Rightarrow> world \<Rightarrow> bool \<times> world" where
  "SaveClipboardImageAsPng env target_path w =
     (case EnsureGtkInitialized env w of
        (ok, w1) \<Rightarrow>
          if \<not> ok then (False, w1)
          else
            (let w2 = called Gtk_clipboard_get w1 in
             if \<not> gtk_clipboard_get env then (False, w2)
             else
               (case gtk_clipboard_wait_for_image w2 of
                  (None, w3) \<Rightarrow> (False, w3)
                | (Some pb, w3) \<Rightarrow>
                    (let w4 = called (Gdk_pixbuf_save pb target_path ''png'' None) w3;
                         saved = gdk_pixbuf_save env pb target_path ''png'';
                         w5 = called (G_object_unref pb) w4
                     in (saved, w5)))))"

text \<open>\<^verbatim>\<open>PutImageIntoClipboard\<close> (lines 257-278): the file is decoded before the clipboard
  handle is asked for.\<close>

definition PutImageIntoClipboard :: "session_env \<Rightarrow> string \<Rightarrow> world \<Rightarrow> bool \<times> world" where
  "PutImageIntoClipboard env image_path w =
     (case EnsureGtkInitialized env w of
        (ok, w1) \<Rightarrow>
          if \<not> ok then (False, w1)
          else
            (let w2 = called (Gdk_pixbuf_new_from_file image_path) w1 in
             case gdk_pixbuf_new_from_file env image_path of
               None \<Rightarrow> (False, w2)
             | Some pb \<Rightarrow>
                 (let w3 = called Gtk_clipboard_get w2 in
                  if \<not> gtk_clipboard_get env then (False, called (G_object_unref pb) w3)
                  else
                    (let w4 = gtk_clipboard_set_image pb w3;
                         w5 = called Gtk_clipboard_store w4;
                         w6 = called (G_object_unref pb) w5
                     in (True, w6)))))"

text \<open>\<^verbatim>\<open>ClipboardHasImage\<close> (lines 280-298), the branch compiled for GTK 2.6 and later.\<close>

definition ClipboardHasImage :: "session_env \<Rightarrow> world \<Rightarrow> bool \<times> world" where
  "ClipboardHasImage env w =
     (case EnsureGtkInitialized env w of
        (ok, w1) \<Rightarrow>
          if \<not> ok then (False, w1)
          else
            (let w2 = called Gtk_clipboard_get w1 in
             if \<not> gtk_clipboard_get env then (False, w2)
             else (clipboard_image w2 \<noteq> None, called Gtk_clipboard_wait_is_image_available w2)))"

section \<open>Histories of the process\<close>

text \<open>
  What can happen to the state: the host calls one of the seven operations, or another
  application takes the selection. Each event comes with the session's answers at that
  moment.
\<close>

datatype event =
    Read_file_paths
  | Write_file_paths "string list"
  | Clear_clipboard
  | Save_jpeg string float32
  | Save_png string
  | Put_image string
  | Has_image
  | New_owner "(string \<times> string) list" "pixbuf option"

fun step :: "session_env \<Rightarrow> event \<Rightarrow> world \<Rightarrow> world" where
  "step env Read_file_paths w = snd (ReadFilePaths env w)"
| "step env (Write_file_paths file_paths) w = WriteFilePaths env file_paths w"
| "step env Clear_clipboard w = ClearClipboard env w"
| "step env (Save_jpeg target_path compression_factor) w =
     snd (SaveClipboardImageAsJpeg env target_path compression_factor w)"
| "step env (Save_png target_path) w = snd (SaveClipboardImageAsPng env target_path w)"
| "step env (Put_image image_path) w = snd (PutImageIntoClipboard env image_path w)"
| "step env Has_image w = snd (ClipboardHasImage env w)"
| "step env (New_owner offers img) w = new_owner offers img w"

fun run :: "(session_env \<times> event) list \<Rightarrow> world \<Rightarrow> world" where
  "run [] w = w"
| "run ((env, e) # es) w = run es (step env e w)"

text \<open>The process at its start: nothing attempted, an empty heap, no call made yet.\<close>

definition start :: "selection \<Rightarrow> world" where
  "start sel =
     \<lparr> attempted = False, initialized = False, heap = (\<lambda>a. None), next_addr = 0,
       deleted = [], clip = sel, calls = [] \<rparr>"

datatype session_handle = Not_attempted | Acquired | Failed

definition session_handle :: "world \<Rightarrow> session_handle" where
  "session_handle w =
     (if \<not> attempted w then Not_attempted else if initialized w then Acquired else Failed)"

section \<open>Notions of the specification\<close>

text \<open>
  The spec's wording of the plain-text fallback, to compare with the loop of the source:
  "the same paths joined by a single LF between consecutive entries, with no trailing
  newline".
\<close>

fun join_lf :: "string list \<Rightarrow> string" where
  "join_lf [] = []"
| "join_lf [p] = p"
| "join_lf (p # q # rest) = p @ LF # join_lf (q # rest)"

text \<open>
  A path "with no URI-encoding-hostile bytes", relative to the two conversions: the path
  converts to a URI, the URI is one line of a URI list that readers keep (not empty, not a
  comment, free of CR and LF), and the URI parses back to the path.
\<close>

definition uri_safe :: "(string \<Rightarrow> string option) \<Rightarrow> (string \<Rightarrow> string option) \<Rightarrow> string \<Rightarrow> bool" where
  "uri_safe to_uri from_uri path =
     (case uri_of_path to_uri path of
        None \<Rightarrow> False
      | Some uri \<Rightarrow>
          uri \<noteq> [] \<and> hd uri \<noteq> CHR ''#'' \<and> CR \<notin> set uri \<and> LF \<notin> set uri
          \<and> path_of_line from_uri uri = Some path)"

definition uri_char :: "char \<Rightarrow> bool" where
  "uri_char c = (c \<noteq> CR \<and> c \<noteq> LF \<and> c \<noteq> CHR ''#'' \<and> c \<noteq> NUL)"

text \<open>The lines of a buffer that the decoder hands to the URI parser.\<close>

definition kept_line :: "string \<Rightarrow> bool" where
  "kept_line l = (l \<noteq> [] \<and> hd l \<noteq> CHR ''#'')"

text \<open>
  "The session attachment did not succeed": the memoized outcome is a failure, or no
  attempt has been made yet and the probing attach is going to fail.
\<close>

definition attach_failed :: "session_env \<Rightarrow> world \<Rightarrow> bool" where
  "attach_failed env w = (if attempted w then \<not> initialized w else \<not> gtk_init_check env)"

text \<open>The events in which the host calls an operation of the program.\<close>

definition is_operation :: "event \<Rightarrow> bool" where
  "is_operation e = (case e of New_owner offers img \<Rightarrow> False | _ \<Rightarrow> True)"

text \<open>The payload the clipboard holds for the program, if it holds one.\<close>

definition published :: "world \<Rightarrow> addr option" where
  "published w = (case clip w of Core_offer targets user_data \<Rightarrow> Some user_data | _ \<Rightarrow> None)"

text \<open>
  The life of the payloads. The published payload is on the heap, was allocated and has
  never been deleted; every other address holds nothing and has been deleted exactly once
  if it was ever allocated, never otherwise.
\<close>

definition payload_inv :: "world \<Rightarrow> bool" where
  "payload_inv w =
     (\<forall>a. if published w = Some a
          then heap w a \<noteq> None \<and> a < next_addr w \<and> count_list (deleted w) a = 0
          else heap w a = None \<and> count_list (deleted w) a = (if a < next_addr w then 1 else 0))"

text \<open>
  Two sessions for concrete runs: one with no display, where the probing attach fails, and
  one where everything the session is asked for succeeds. Both use the modelled URI
  conversions.
\<close>

definition headless :: session_env where
  "headless =
     \<lparr> gtk_init_check = False, gtk_clipboard_get = True,
       gdk_pixbuf_new_from_file = (\<lambda>path. Some 0), gdk_pixbuf_save = (\<lambda>pb path type. True),
       filename_to_uri = g_filename_to_uri, filename_from_uri = g_filename_from_uri \<rparr>"

definition desktop :: session_env where
  "desktop =
     \<lparr> gtk_init_check = True, gtk_clipboard_get = True,
       gdk_pixbuf_new_from_file = (\<lambda>path. Some 0), gdk_pixbuf_save = (\<lambda>pb path type. True),
       filename_to_uri = g_filename_to_uri, filename_from_uri = g_filename_from_uri \<rparr>"

section \<open>Properties of the line codec\<close>

lemma joinWithCrlf_loop_eq:
  "joinWithCrlf_loop items i oss = oss @ concat (map (\<lambda>u. u @ [CR, LF]) (drop i items))"
proof (induction items i oss rule: joinWithCrlf_loop.induct)
  case (1 items i oss)
  show ?case
  proof (cases "i < length items")
    case True
    then have d: "drop i items = items ! i # drop (i + 1) items"
      by (simp add: Cons_nth_drop_Suc)
    from True "1" show ?thesis
      by (subst joinWithCrlf_loop.simps) (simp add: d)
  next
    case False
    then show ?thesis
      by (subst joinWithCrlf_loop.simps) simp
  qed
qed

lemma joinWithCrlf_eq: "joinWithCrlf items = concat (map (\<lambda>u. u @ [CR, LF]) items)"
  by (simp add: joinWithCrlf_def joinWithCrlf_loop_eq)

lemma splitLines_loop_plain:
  "CR \<notin> set u \<Longrightarrow> LF \<notin> set u \<Longrightarrow>
   splitLines_loop (u @ rest) lines current = splitLines_loop rest lines (current @ u)"
  by (induction u arbitrary: current) auto

lemma splitLines_loop_crlf:
  "splitLines_loop (CR # LF # rest) lines current = splitLines_loop rest (lines @ [current]) []"
  by simp

lemma splitLines_loop_join:
  "\<forall>u\<in>set us. CR \<notin> set u \<and> LF \<notin> set u \<Longrightarrow>
   splitLines_loop (concat (map (\<lambda>u. u @ [CR, LF]) us)) lines [] = (lines @ us, [])"
proof (induction us arbitrary: lines)
  case Nil
  then show ?case by simp
next
  case (Cons u us)
  then have u: "CR \<notin> set u" "LF \<notin> set u" by auto
  have "splitLines_loop (concat (map (\<lambda>u. u @ [CR, LF]) (u # us))) lines []
        = splitLines_loop (u @ (CR # LF # concat (map (\<lambda>u. u @ [CR, LF]) us))) lines []"
    by simp
  also have "\<dots> = splitLines_loop (CR # LF # concat (map (\<lambda>u. u @ [CR, LF]) us)) lines u"
    using splitLines_loop_plain [OF u] by simp
  also have "\<dots> = splitLines_loop (concat (map (\<lambda>u. u @ [CR, LF]) us)) (lines @ [u]) []"
    by (rule splitLines_loop_crlf)
  also have "\<dots> = ((lines @ [u]) @ us, [])"
    using Cons by simp
  finally show ?case by simp
qed

lemma splitLines_joinWithCrlf:
  "\<forall>u\<in>set us. CR \<notin> set u \<and> LF \<notin> set u \<Longrightarrow> splitLines (joinWithCrlf us) = us"
  by (simp add: splitLines_def joinWithCrlf_eq splitLines_loop_join)



section \<open>The two loops over paths and lines, as list functions\<close>

lemma ReadFilePaths_lines_eq:
  "ReadFilePaths_lines from_uri ls result =
   result @ List.map_filter (path_of_line from_uri) (filter kept_line ls)"
  by (induction ls arbitrary: result)
     (auto simp: List.map_filter_simps kept_line_def hd_conv_nth split: option.splits)

lemma WriteFilePaths_uris_eq:
  "WriteFilePaths_uris to_uri paths uris = uris @ List.map_filter (uri_of_path to_uri) paths"
  by (induction paths arbitrary: uris) (auto simp: List.map_filter_simps split: option.splits)

lemma join_lf_Cons: "join_lf (p # rest) = p @ (if rest = [] then [] else LF # join_lf rest)"
  by (cases rest) simp_all

lemma WriteFilePaths_plain_eq:
  "WriteFilePaths_plain file_paths i plain = plain @ join_lf (drop i file_paths)"
proof (induction file_paths i plain rule: WriteFilePaths_plain.induct)
  case (1 file_paths i plain)
  show ?case
  proof (cases "i < length file_paths")
    case True
    then have d: "drop i file_paths = file_paths ! i # drop (i + 1) file_paths"
      by (simp add: Cons_nth_drop_Suc)
    from True "1" show ?thesis
      by (subst WriteFilePaths_plain.simps) (simp add: d join_lf_Cons)
  next
    case False
    then show ?thesis
      by (subst WriteFilePaths_plain.simps) simp
  qed
qed

lemma uri_list_payload:
  "uri_list (WriteFilePaths_payload to_uri paths) =
   concat (map (\<lambda>u. u @ [CR, LF]) (List.map_filter (uri_of_path to_uri) paths))"
  by (simp add: WriteFilePaths_payload_def joinWithCrlf_eq WriteFilePaths_uris_eq)

lemma plain_text_payload: "plain_text (WriteFilePaths_payload to_uri paths) = join_lf paths"
  by (simp add: WriteFilePaths_payload_def WriteFilePaths_plain_eq)

section \<open>The modelled URI conversions invert each other\<close>

lemma unhex_hex: "n < 16 \<Longrightarrow> unhex (hex_digit n) = Some n"
  by (auto simp: unhex_def hex_digit_def Let_def)

lemma of_char_div_mod: "(of_char c :: nat) div 16 < 16" "(of_char c :: nat) mod 16 < 16"
proof -
  have "(of_char c :: nat) < 16 * 16" by simp
  then show "(of_char c :: nat) div 16 < 16" by (rule less_mult_imp_div_less)
  show "(of_char c :: nat) mod 16 < 16" by simp
qed

lemma of_char_NUL: "(of_char c :: nat) = 0 \<longleftrightarrow> c = NUL"
proof -
  have "(of_char c :: nat) = of_char NUL \<longleftrightarrow> c = NUL" by (rule of_char_eq_iff)
  then show ?thesis by simp
qed

lemma uri_unescape_escape: "NUL \<notin> set s \<Longrightarrow> uri_unescape (uri_escape s) = Some s"
proof (induction s)
  case Nil
  then show ?case by simp
next
  case (Cons c s)
  then have nz: "(of_char c :: nat) \<noteq> 0" by (auto simp: of_char_NUL)
  then have nz': "16 * ((of_char c :: nat) div 16) + of_char c mod 16 \<noteq> 0" by simp
  show ?case
  proof (cases "uri_unreserved c")
    case True
    then have "c \<noteq> CHR ''%''" by (auto simp: uri_unreserved_def)
    with True Cons show ?thesis by simp
  next
    case False
    with Cons nz' show ?thesis
      by (simp add: unhex_hex of_char_div_mod del: mult_div_mod_eq)
  qed
qed

lemma hex_digit_of_char:
  "n < 16 \<Longrightarrow> of_char (hex_digit n) = (if n < 10 then 48 + n else 55 + n)"
  by (simp add: hex_digit_def)

lemma hex_digit_uri_char: "n < 16 \<Longrightarrow> uri_char (hex_digit n)"
proof -
  assume n: "n < 16"
  have ge: "(of_char (hex_digit n) :: nat) \<ge> 48" using n by (simp add: hex_digit_of_char)
  show ?thesis using ge by (auto simp: uri_char_def)
qed

lemma unreserved_uri_char: "uri_unreserved c \<Longrightarrow> uri_char c"
  by (auto simp: uri_unreserved_def uri_char_def)

lemma uri_escape_chars: "\<forall>c\<in>set (uri_escape s). uri_char c"
proof (induction s)
  case Nil
  then show ?case by simp
next
  case (Cons c s)
  have "uri_char (CHR ''%'')" by (simp add: uri_char_def)
  with Cons show ?case
    by (simp add: unreserved_uri_char hex_digit_uri_char of_char_div_mod)
qed

lemma c_str_id: "NUL \<notin> set s \<Longrightarrow> c_str s = s"
  by (auto simp: c_str_def takeWhile_eq_all_conv)

lemma uri_escape_hd:
  "p \<noteq> [] \<Longrightarrow> hd p = CHR ''/'' \<Longrightarrow> uri_escape p \<noteq> [] \<and> hd (uri_escape p) = CHR ''/''"
  by (cases p) (auto simp: uri_unreserved_def)

lemma g_filename_uri_safe:
  assumes "p \<noteq> []" "hd p = CHR ''/''" "NUL \<notin> set p"
  shows "uri_safe g_filename_to_uri g_filename_from_uri p"
proof -
  let ?u = "''file://'' @ uri_escape p"
  have esc: "\<forall>c\<in>set (uri_escape p). uri_char c" by (rule uri_escape_chars)
  have pre: "\<forall>c\<in>set ''file://''. uri_char c" by (simp add: uri_char_def)
  from esc pre have chars: "\<forall>c\<in>set ?u. uri_char c" by auto
  then have nonul: "NUL \<notin> set ?u" and nocr: "CR \<notin> set ?u" and nolf: "LF \<notin> set ?u"
    by (auto simp: uri_char_def)
  from esc have nohash: "CHR ''#'' \<notin> set (uri_escape p)" by (auto simp: uri_char_def)
  have tu: "uri_of_path g_filename_to_uri p = Some ?u"
    using assms nonul by (simp add: uri_of_path_def g_filename_to_uri_def c_str_id)
  have "g_filename_from_uri ?u = Some p"
    using assms nohash uri_escape_hd [of p]
    by (simp add: g_filename_from_uri_def uri_unescape_escape)
  then have fr: "path_of_line g_filename_from_uri ?u = Some p"
    using nonul assms by (simp add: path_of_line_def c_str_id)
  show ?thesis
    using tu fr nocr nolf by (simp add: uri_safe_def)
qed

section \<open>Decoding an encoded list\<close>

lemma roundtrip_safe_paths:
  assumes "list_all (uri_safe to_uri from_uri) P"
  shows "ReadFilePaths_decode from_uri (uri_list (WriteFilePaths_payload to_uri P)) = P"
proof -
  let ?us = "List.map_filter (uri_of_path to_uri) P"
  from assms have us: "?us = map (\<lambda>p. the (uri_of_path to_uri p)) P"
    by (induction P) (auto simp: List.map_filter_simps uri_safe_def split: option.splits)
  from assms have safe: "\<forall>p\<in>set P. uri_safe to_uri from_uri p"
    by (simp add: list_all_iff)
  have nb: "\<forall>u\<in>set ?us. CR \<notin> set u \<and> LF \<notin> set u"
    unfolding us using safe by (auto simp: uri_safe_def split: option.splits)
  have spl: "splitLines (uri_list (WriteFilePaths_payload to_uri P)) = ?us"
    using splitLines_joinWithCrlf [OF nb] by (simp add: uri_list_payload joinWithCrlf_eq)
  have kept: "filter kept_line ?us = ?us"
    unfolding us using safe
    by (auto simp: filter_id_conv kept_line_def uri_safe_def split: option.splits)
  from assms have rt: "List.map_filter (path_of_line from_uri) (map (\<lambda>p. the (uri_of_path to_uri p)) P) = P"
    by (induction P) (auto simp: List.map_filter_simps uri_safe_def split: option.splits)
  show ?thesis
    unfolding ReadFilePaths_decode_def spl ReadFilePaths_lines_eq kept
    using rt by (simp add: us)
qed

section \<open>C1: decoding an encoded list of paths\<close>

text \<open>
  C1. For every sequence \<open>P\<close> of paths with no URI-encoding-hostile bytes, decoding the
  URI list that \<^verbatim>\<open>WriteFilePaths\<close> builds from \<open>P\<close> (each path converted to a URI, a CRLF
  after each) with the decoder of \<^verbatim>\<open>ReadFilePaths\<close> yields exactly \<open>P\<close>: same order,
  duplicates kept. This holds for any pair of conversions and the paths that are safe for
  them (\<^const>\<open>uri_safe\<close>); for the modelled conversions it holds for every sequence of
  absolute paths without a NUL byte.
\<close>

theorem decode_encode_roundtrip:
  "(list_all (uri_safe to_uri from_uri) P \<longrightarrow>
      ReadFilePaths_decode from_uri (uri_list (WriteFilePaths_payload to_uri P)) = P)
   \<and> ((\<forall>p\<in>set P. p \<noteq> [] \<and> hd p = CHR ''/'' \<and> NUL \<notin> set p) \<longrightarrow>
      ReadFilePaths_decode g_filename_from_uri
        (uri_list (WriteFilePaths_payload g_filename_to_uri P)) = P)"
proof (intro conjI impI)
  assume "list_all (uri_safe to_uri from_uri) P"
  then show "ReadFilePaths_decode from_uri (uri_list (WriteFilePaths_payload to_uri P)) = P"
    by (rule roundtrip_safe_paths)
next
  assume "\<forall>p\<in>set P. p \<noteq> [] \<and> hd p = CHR ''/'' \<and> NUL \<notin> set p"
  then have "list_all (uri_safe g_filename_to_uri g_filename_from_uri) P"
    by (simp add: list_all_iff g_filename_uri_safe)
  then show "ReadFilePaths_decode g_filename_from_uri
        (uri_list (WriteFilePaths_payload g_filename_to_uri P)) = P"
    by (rule roundtrip_safe_paths)
qed

theorem decode_encode_roundtrip_witness:
  "list_all (uri_safe g_filename_to_uri g_filename_from_uri)
     [''/home/a/x.txt'', ''/tmp/'' @ [CHR 0xCE, CHR 0xB2] @ ''.md'', ''/home/a/x.txt'']
   \<and> ReadFilePaths_decode g_filename_from_uri
        (uri_list (WriteFilePaths_payload g_filename_to_uri
           [''/home/a/x.txt'', ''/tmp/'' @ [CHR 0xCE, CHR 0xB2] @ ''.md'', ''/home/a/x.txt'']))
      = [''/home/a/x.txt'', ''/tmp/'' @ [CHR 0xCE, CHR 0xB2] @ ''.md'', ''/home/a/x.txt'']"
proof -
  have h: "list_all (uri_safe g_filename_to_uri g_filename_from_uri)
     [''/home/a/x.txt'', ''/tmp/'' @ [CHR 0xCE, CHR 0xB2] @ ''.md'', ''/home/a/x.txt'']"
    by (simp add: g_filename_uri_safe)
  from decode_encode_roundtrip [THEN conjunct1, THEN mp, OF h] h show ?thesis
    by (intro conjI)
qed

section \<open>The modelled conversions at the inputs of the scenarios\<close>

lemma to_uri_x: "g_filename_to_uri ''/home/a/x.txt'' = Some ''file:///home/a/x.txt''"
  by code_simp

lemma to_uri_beta:
  "g_filename_to_uri (''/tmp/'' @ [CHR 0xCE, CHR 0xB2] @ ''.md'') = Some ''file:///tmp/%CE%B2.md''"
  by code_simp

lemma from_uri_a: "g_filename_from_uri ''file:///a'' = Some ''/a''"
  by code_simp

lemma from_uri_b: "g_filename_from_uri ''file:///b'' = Some ''/b''"
  by code_simp

lemma to_uri_relative: "g_filename_to_uri ''notes.txt'' = None"
  by code_simp

lemma to_uri_a: "g_filename_to_uri ''/a'' = Some ''file:///a''"
  by code_simp

lemma c_str_simps: "c_str [] = []" "c \<noteq> NUL \<Longrightarrow> c_str (c # s) = c # c_str s"
  by (simp_all add: c_str_def)

lemma splitLines_scenario:
  "splitLines (''# comment'' @ [CR, LF] @ ''file:///a'' @ [CR, LF, CR, LF] @ ''file:///b'' @ [CR, LF])
   = [''# comment'', ''file:///a'', [], ''file:///b'']"
  by (simp add: splitLines_def)

lemma join_lf_contains: "p \<in> set paths \<Longrightarrow> \<exists>a b. join_lf paths = a @ p @ b"
proof (induction paths)
  case Nil
  then show ?case by simp
next
  case (Cons q paths)
  show ?case
  proof (cases "p = q")
    case True
    have "join_lf (q # paths) = [] @ q @ (if paths = [] then [] else LF # join_lf paths)"
      by (simp add: join_lf_Cons)
    with True show ?thesis by blast
  next
    case False
    with Cons have mem: "p \<in> set paths" by simp
    then have ne: "paths \<noteq> []" by auto
    from Cons.IH [OF mem] obtain a b where ab: "join_lf paths = a @ p @ b" by blast
    with ne have "join_lf (q # paths) = (q @ LF # a) @ p @ b"
      by (simp add: join_lf_Cons)
    then show ?thesis by blast
  qed
qed

lemma length_map_filter_le: "length (List.map_filter f xs) \<le> length xs"
  by (induction xs) (auto simp: List.map_filter_simps split: option.splits)

lemma length_map_filter_less:
  "(length (List.map_filter f xs) < length xs) = (\<exists>x\<in>set xs. f x = None)"
proof (induction xs)
  case Nil
  then show ?case by (simp add: List.map_filter_simps)
next
  case (Cons x xs)
  have le: "length (List.map_filter f xs) \<le> length xs" by (rule length_map_filter_le)
  show ?case
  proof (cases "f x")
    case None
    with le show ?thesis by (simp add: List.map_filter_simps less_Suc_eq_le)
  next
    case (Some y)
    with Cons show ?thesis by (simp add: List.map_filter_simps)
  qed
qed

section \<open>C2: the payload of the first scenario\<close>

text \<open>
  C2. For the input paths \<^verbatim>\<open>/home/a/x.txt\<close> and \<^verbatim>\<open>/tmp/\<close>\<beta>\<^verbatim>\<open>.md\<close> (\<beta> is the two bytes
  CE B2 in UTF-8), the payload built by \<^verbatim>\<open>WriteFilePaths\<close> has the URI-list representation
  \<^verbatim>\<open>file:///home/a/x.txt\<close> CRLF \<^verbatim>\<open>file:///tmp/%CE%B2.md\<close> CRLF, a CRLF after every entry,
  the last included, and the plain-text representation made of the two paths with a single
  LF between them and nothing after the second. The URIs of the two paths are what the
  conversion returns for them; the witness computes them with the modelled conversion.
\<close>

theorem write_scenario:
  assumes "to_uri ''/home/a/x.txt'' = Some ''file:///home/a/x.txt''"
    and "to_uri (''/tmp/'' @ [CHR 0xCE, CHR 0xB2] @ ''.md'') = Some ''file:///tmp/%CE%B2.md''"
  shows "WriteFilePaths_payload to_uri [''/home/a/x.txt'', ''/tmp/'' @ [CHR 0xCE, CHR 0xB2] @ ''.md'']
         = \<lparr> uri_list = ''file:///home/a/x.txt'' @ [CR, LF] @ ''file:///tmp/%CE%B2.md'' @ [CR, LF],
             plain_text = ''/home/a/x.txt'' @ [LF] @ ''/tmp/'' @ [CHR 0xCE, CHR 0xB2] @ ''.md'' \<rparr>"
proof -
  have u1: "uri_of_path to_uri ''/home/a/x.txt'' = Some ''file:///home/a/x.txt''"
    using assms(1) by (simp add: uri_of_path_def c_str_simps)
  have u2: "uri_of_path to_uri (''/tmp/'' @ [CHR 0xCE, CHR 0xB2] @ ''.md'') = Some ''file:///tmp/%CE%B2.md''"
    using assms(2) by (simp add: uri_of_path_def c_str_simps)
  have "uri_list (WriteFilePaths_payload to_uri [''/home/a/x.txt'', ''/tmp/'' @ [CHR 0xCE, CHR 0xB2] @ ''.md''])
        = ''file:///home/a/x.txt'' @ [CR, LF] @ ''file:///tmp/%CE%B2.md'' @ [CR, LF]"
    using u1 u2 by (simp add: uri_list_payload List.map_filter_simps)
  moreover have "plain_text (WriteFilePaths_payload to_uri [''/home/a/x.txt'', ''/tmp/'' @ [CHR 0xCE, CHR 0xB2] @ ''.md''])
        = ''/home/a/x.txt'' @ [LF] @ ''/tmp/'' @ [CHR 0xCE, CHR 0xB2] @ ''.md''"
    by (simp add: plain_text_payload)
  ultimately show ?thesis
    by (simp add: WriteFilePaths_payload_def)
qed

theorem write_scenario_witness:
  "g_filename_to_uri ''/home/a/x.txt'' = Some ''file:///home/a/x.txt''
   \<and> g_filename_to_uri (''/tmp/'' @ [CHR 0xCE, CHR 0xB2] @ ''.md'') = Some ''file:///tmp/%CE%B2.md''
   \<and> WriteFilePaths_payload g_filename_to_uri [''/home/a/x.txt'', ''/tmp/'' @ [CHR 0xCE, CHR 0xB2] @ ''.md'']
         = \<lparr> uri_list = ''file:///home/a/x.txt'' @ [CR, LF] @ ''file:///tmp/%CE%B2.md'' @ [CR, LF],
             plain_text = ''/home/a/x.txt'' @ [LF] @ ''/tmp/'' @ [CHR 0xCE, CHR 0xB2] @ ''.md'' \<rparr>"
  using write_scenario [OF to_uri_x to_uri_beta] to_uri_x to_uri_beta by blast

section \<open>C3: the decoder skips empty lines and comments\<close>



section \<open>C4: the reading scenarios\<close>

text \<open>
  C4. Decoding \<^verbatim>\<open># comment\<close> CRLF \<^verbatim>\<open>file:///a\<close> CRLF CRLF \<^verbatim>\<open>file:///b\<close> CRLF yields
  \<^verbatim>\<open>/a\<close>, \<^verbatim>\<open>/b\<close>, given that the parser maps the two URIs to these paths; decoding the
  empty buffer yields the empty sequence; and a buffer all of whose lines are comments
  (or empty) yields the empty sequence.
\<close>

theorem read_scenarios:
  assumes "from_uri ''file:///a'' = Some ''/a''" and "from_uri ''file:///b'' = Some ''/b''"
  shows "ReadFilePaths_decode from_uri
           (''# comment'' @ [CR, LF] @ ''file:///a'' @ [CR, LF, CR, LF] @ ''file:///b'' @ [CR, LF])
         = [''/a'', ''/b'']
       \<and> ReadFilePaths_decode from_uri [] = []
       \<and> (\<forall>B. (\<forall>l\<in>set (splitLines B). l = [] \<or> hd l = CHR ''#'')
              \<longrightarrow> ReadFilePaths_decode from_uri B = [])"
proof -
  have a: "path_of_line from_uri ''file:///a'' = Some ''/a''"
    using assms(1) by (simp add: path_of_line_def c_str_simps)
  have b: "path_of_line from_uri ''file:///b'' = Some ''/b''"
    using assms(2) by (simp add: path_of_line_def c_str_simps)
  have s1: "ReadFilePaths_decode from_uri
           (''# comment'' @ [CR, LF] @ ''file:///a'' @ [CR, LF, CR, LF] @ ''file:///b'' @ [CR, LF])
         = [''/a'', ''/b'']"
    unfolding ReadFilePaths_decode_def splitLines_scenario using a b by simp
  have s2: "ReadFilePaths_decode from_uri [] = []"
    by (simp add: ReadFilePaths_decode_def splitLines_def)
  have s3: "ReadFilePaths_decode from_uri B = []"
    if "\<forall>l\<in>set (splitLines B). l = [] \<or> hd l = CHR ''#''" for B
  proof -
    from that have "filter kept_line (splitLines B) = []"
      by (auto simp: filter_empty_conv kept_line_def)
    then show ?thesis
      by (simp add: ReadFilePaths_decode_def ReadFilePaths_lines_eq List.map_filter_simps)
  qed
  from s1 s2 s3 show ?thesis by blast
qed

theorem read_scenarios_witness:
  "g_filename_from_uri ''file:///a'' = Some ''/a''
   \<and> g_filename_from_uri ''file:///b'' = Some ''/b''
   \<and> ReadFilePaths_decode g_filename_from_uri
           (''# comment'' @ [CR, LF] @ ''file:///a'' @ [CR, LF, CR, LF] @ ''file:///b'' @ [CR, LF])
         = [''/a'', ''/b'']
   \<and> ReadFilePaths_decode g_filename_from_uri [] = []
   \<and> splitLines (''# one'' @ [CR, LF] @ ''#two'') = [''# one'', ''#two'']
   \<and> ReadFilePaths_decode g_filename_from_uri (''# one'' @ [CR, LF] @ ''#two'') = []"
proof -
  have s: "splitLines (''# one'' @ [CR, LF] @ ''#two'') = [''# one'', ''#two'']"
    by (simp add: splitLines_def)
  then have h: "\<forall>l\<in>set (splitLines (''# one'' @ [CR, LF] @ ''#two'')). l = [] \<or> hd l = CHR ''#''"
    by simp
  from read_scenarios [OF from_uri_a from_uri_b] h s from_uri_a from_uri_b
  show ?thesis by blast
qed

section \<open>C10: the plain-text fallback lists every input path\<close>

text \<open>
  C10. For every input sequence and every conversion, the plain-text representation built
  by \<^verbatim>\<open>WriteFilePaths\<close> is the input paths joined by single LFs, so it contains every
  input path, also one whose conversion to a URI failed; the URI-list representation holds
  the URIs of the paths that converted only. The URI list therefore never has more entries
  than there are paths, and has fewer exactly when some conversion failed.
\<close>

theorem plain_text_lists_every_path:
  "plain_text (WriteFilePaths_payload to_uri paths) = join_lf paths
   \<and> (\<forall>p\<in>set paths. \<exists>a b. plain_text (WriteFilePaths_payload to_uri paths) = a @ p @ b)
   \<and> uri_list (WriteFilePaths_payload to_uri paths)
       = joinWithCrlf (List.map_filter (uri_of_path to_uri) paths)
   \<and> length (List.map_filter (uri_of_path to_uri) paths) \<le> length paths
   \<and> (length (List.map_filter (uri_of_path to_uri) paths) < length paths)
       = (\<exists>p\<in>set paths. uri_of_path to_uri p = None)"
proof -
  have 1: "plain_text (WriteFilePaths_payload to_uri paths) = join_lf paths"
    by (rule plain_text_payload)
  have 2: "\<forall>p\<in>set paths. \<exists>a b. plain_text (WriteFilePaths_payload to_uri paths) = a @ p @ b"
    unfolding 1 using join_lf_contains by blast
  have 3: "uri_list (WriteFilePaths_payload to_uri paths)
       = joinWithCrlf (List.map_filter (uri_of_path to_uri) paths)"
    by (simp add: uri_list_payload joinWithCrlf_eq)
  from 1 2 3 length_map_filter_le [of "uri_of_path to_uri" paths]
    length_map_filter_less [of "uri_of_path to_uri" paths]
  show ?thesis by blast
qed

theorem plain_text_lists_every_path_witness:
  "uri_of_path g_filename_to_uri ''notes.txt'' = None
   \<and> plain_text (WriteFilePaths_payload g_filename_to_uri [''notes.txt'', ''/a''])
       = ''notes.txt'' @ [LF] @ ''/a''
   \<and> uri_list (WriteFilePaths_payload g_filename_to_uri [''notes.txt'', ''/a''])
       = ''file:///a'' @ [CR, LF]
   \<and> length (List.map_filter (uri_of_path g_filename_to_uri) [''notes.txt'', ''/a'']) = 1
   \<and> (\<exists>a b. plain_text (WriteFilePaths_payload g_filename_to_uri [''notes.txt'', ''/a''])
               = a @ ''notes.txt'' @ b)"
proof -
  have n: "uri_of_path g_filename_to_uri ''notes.txt'' = None"
    by (simp add: uri_of_path_def c_str_simps to_uri_relative)
  have a: "uri_of_path g_filename_to_uri ''/a'' = Some ''file:///a''"
    by (simp add: uri_of_path_def c_str_simps to_uri_a)
  have m: "List.map_filter (uri_of_path g_filename_to_uri) [''notes.txt'', ''/a''] = [''file:///a'']"
    using n a by (simp add: List.map_filter_simps)
  have j: "joinWithCrlf [''file:///a''] = ''file:///a'' @ [CR, LF]"
    by (simp add: joinWithCrlf_eq)
  have mem: "''notes.txt'' \<in> set [''notes.txt'', ''/a'']" by simp
  from plain_text_lists_every_path [of g_filename_to_uri "[''notes.txt'', ''/a'']"]
  have p: "plain_text (WriteFilePaths_payload g_filename_to_uri [''notes.txt'', ''/a''])
             = join_lf [''notes.txt'', ''/a'']"
    and c: "\<forall>p\<in>set [''notes.txt'', ''/a'']. \<exists>a b.
             plain_text (WriteFilePaths_payload g_filename_to_uri [''notes.txt'', ''/a'']) = a @ p @ b"
    and u: "uri_list (WriteFilePaths_payload g_filename_to_uri [''notes.txt'', ''/a''])
             = joinWithCrlf (List.map_filter (uri_of_path g_filename_to_uri) [''notes.txt'', ''/a''])"
    by blast+
  from c mem have c': "\<exists>a b. plain_text (WriteFilePaths_payload g_filename_to_uri [''notes.txt'', ''/a''])
               = a @ ''notes.txt'' @ b" by blast
  from p have p': "plain_text (WriteFilePaths_payload g_filename_to_uri [''notes.txt'', ''/a''])
       = ''notes.txt'' @ [LF] @ ''/a''" by simp
  from u m j have u': "uri_list (WriteFilePaths_payload g_filename_to_uri [''notes.txt'', ''/a''])
       = ''file:///a'' @ [CR, LF]" by simp
  from m have l: "length (List.map_filter (uri_of_path g_filename_to_uri) [''notes.txt'', ''/a'']) = 1"
    by simp
  from n p' u' l c' show ?thesis by blast
qed

section \<open>The session bootstrap\<close>

lemmas session_defs =
  called_def lose_ownership_def clipboard_clear_func_def gtk_clipboard_set_with_data_def
  gtk_clipboard_clear_def gtk_clipboard_set_image_def new_owner_def
  gtk_clipboard_wait_for_contents_def gtk_clipboard_wait_for_image_def

lemmas operation_defs =
  ReadFilePaths_def WriteFilePaths_def ClearClipboard_def SaveClipboardImageAsJpeg_def
  SaveClipboardImageAsPng_def PutImageIntoClipboard_def ClipboardHasImage_def

lemma Ensure_failed:
  "attach_failed env w \<Longrightarrow> fst (EnsureGtkInitialized env w) = False"
  by (auto simp: attach_failed_def EnsureGtkInitialized_def called_def Let_def split: if_splits)

lemma Ensure_untouched:
  "clip (snd (EnsureGtkInitialized env w)) = clip w"
  "heap (snd (EnsureGtkInitialized env w)) = heap w"
  "next_addr (snd (EnsureGtkInitialized env w)) = next_addr w"
  "deleted (snd (EnsureGtkInitialized env w)) = deleted w"
  "calls (snd (EnsureGtkInitialized env w)) = calls w @ (if attempted w then [] else [Gtk_init_check])"
  "attempted (snd (EnsureGtkInitialized env w))"
  by (simp_all add: EnsureGtkInitialized_def called_def Let_def)

lemmas evaluation_defs =
  start_def desktop_def headless_def operation_defs session_defs EnsureGtkInitialized_def
  Let_def published_def session_handle_def request_target_def clipboard_image_def

lemma step_handle:
  "attempted (step env e w) = (attempted w \<or> is_operation e)"
  "attempted w \<Longrightarrow> initialized (step env e w) = initialized w"
  "attempted w \<Longrightarrow> count_list (calls (step env e w)) Gtk_init_check = count_list (calls w) Gtk_init_check"
  "\<not> attempted w \<Longrightarrow> count_list (calls (step env e w)) Gtk_init_check
     = count_list (calls w) Gtk_init_check + (if is_operation e then 1 else 0)"
  by (cases e; simp add: is_operation_def operation_defs session_defs EnsureGtkInitialized_def Let_def
        request_target_def clipboard_image_def
        split: prod.splits option.splits selection.splits)+

lemma run_attempted:
  "attempted w \<Longrightarrow> attempted (run es w) \<and> initialized (run es w) = initialized w
     \<and> count_list (calls (run es w)) Gtk_init_check = count_list (calls w) Gtk_init_check"
proof (induction es arbitrary: w)
  case Nil
  then show ?case by simp
next
  case (Cons x es)
  obtain env e where x: "x = (env, e)" by (cases x)
  from Cons.prems have a: "attempted (step env e w)" by (simp add: step_handle)
  from Cons.IH [OF a] Cons.prems show ?case
    by (simp add: x step_handle)
qed

lemma run_count:
  "count_list (calls (run es w)) Gtk_init_check
     = count_list (calls w) Gtk_init_check + (if \<not> attempted w \<and> attempted (run es w) then 1 else 0)"
proof (induction es arbitrary: w)
  case Nil
  then show ?case by simp
next
  case (Cons x es)
  obtain env e where x: "x = (env, e)" by (cases x)
  show ?case
  proof (cases "attempted w")
    case True
    with run_attempted [OF True, of "x # es"] show ?thesis by simp
  next
    case False
    show ?thesis
    proof (cases "is_operation e")
      case True
      then have a: "attempted (step env e w)" by (simp add: step_handle)
      from run_attempted [OF a, of es] False True show ?thesis
        by (simp add: x step_handle)
    next
      case op: False
      with False have na: "\<not> attempted (step env e w)" by (simp add: step_handle)
      from Cons.IH [of "step env e w"] na False op show ?thesis
        by (simp add: x step_handle)
    qed
  qed
qed

section \<open>The life of a payload\<close>

lemma inv_called: "payload_inv (called c w) = payload_inv w"
  by (simp add: payload_inv_def called_def published_def)

lemma inv_Ensure: "payload_inv (snd (EnsureGtkInitialized env w)) = payload_inv w"
  by (simp add: payload_inv_def published_def EnsureGtkInitialized_def called_def Let_def)

lemma inv_calls_update: "payload_inv (w\<lparr>calls := cs\<rparr>) = payload_inv w"
  by (simp add: payload_inv_def published_def)

lemma inv_release:
  assumes "payload_inv w" and "\<forall>targets a. sel \<noteq> Core_offer targets a"
  shows "payload_inv ((lose_ownership w)\<lparr>clip := sel\<rparr>)"
proof (cases "published w")
  case None
  then have "lose_ownership w = w"
    by (auto simp: lose_ownership_def published_def split: selection.splits)
  moreover have "published (w\<lparr>clip := sel\<rparr>) = None"
    using assms(2) by (auto simp: published_def split: selection.splits)
  ultimately show ?thesis
    using assms(1) None by (simp add: payload_inv_def)
next
  case (Some a0)
  then have l: "lose_ownership w = w\<lparr>heap := (heap w)(a0 := None), deleted := deleted w @ [a0]\<rparr>"
    by (auto simp: lose_ownership_def published_def clipboard_clear_func_def split: selection.splits)
  have p: "published ((lose_ownership w)\<lparr>clip := sel\<rparr>) = None"
    using assms(2) by (auto simp: published_def split: selection.splits)
  from assms(1) Some have a0: "a0 < next_addr w" "count_list (deleted w) a0 = 0"
    by (auto simp: payload_inv_def split: if_splits)
  show ?thesis
    unfolding payload_inv_def p
  proof (intro allI)
    fix a
    from assms(1) have i: "if published w = Some a
          then heap w a \<noteq> None \<and> a < next_addr w \<and> count_list (deleted w) a = 0
          else heap w a = None \<and> count_list (deleted w) a = (if a < next_addr w then 1 else 0)"
      by (simp add: payload_inv_def)
    show "if None = Some a then heap ((lose_ownership w)\<lparr>clip := sel\<rparr>) a \<noteq> None \<and>
            a < next_addr ((lose_ownership w)\<lparr>clip := sel\<rparr>) \<and>
            count_list (deleted ((lose_ownership w)\<lparr>clip := sel\<rparr>)) a = 0
          else heap ((lose_ownership w)\<lparr>clip := sel\<rparr>) a = None \<and>
            count_list (deleted ((lose_ownership w)\<lparr>clip := sel\<rparr>)) a =
            (if a < next_addr ((lose_ownership w)\<lparr>clip := sel\<rparr>) then 1 else 0)"
      using i a0 Some by (cases "a = a0") (simp_all add: l)
  qed
qed

lemma published_update:
  "published (w\<lparr>heap := h\<rparr>) = published w"
  "published (w\<lparr>next_addr := m\<rparr>) = published w"
  "published (w\<lparr>deleted := d\<rparr>) = published w"
  "published (w\<lparr>calls := cs\<rparr>) = published w"
  by (simp_all add: published_def)

lemma set_with_data_fields:
  "heap (gtk_clipboard_set_with_data targets u w)
     = (case published w of None \<Rightarrow> heap w | Some a0 \<Rightarrow> (heap w)(a0 := None))"
  "deleted (gtk_clipboard_set_with_data targets u w)
     = (case published w of None \<Rightarrow> deleted w | Some a0 \<Rightarrow> deleted w @ [a0])"
  "next_addr (gtk_clipboard_set_with_data targets u w) = next_addr w"
  "published (gtk_clipboard_set_with_data targets u w) = Some u"
  by (auto simp: gtk_clipboard_set_with_data_def lose_ownership_def called_def
        clipboard_clear_func_def published_def split: selection.splits)

lemma inv_publish:
  assumes "payload_inv w"
  shows "payload_inv (gtk_clipboard_set_with_data targets (next_addr w)
           (w\<lparr>heap := (heap w)(next_addr w \<mapsto> v), next_addr := next_addr w + 1\<rparr>))"
proof -
  let ?n = "next_addr w"
  let ?w1 = "w\<lparr>heap := (heap w)(?n \<mapsto> v), next_addr := ?n + 1\<rparr>"
  let ?w2 = "gtk_clipboard_set_with_data targets ?n ?w1"
  note p1 = published_update
  from assms have n: "published w \<noteq> Some ?n" "heap w ?n = None" "count_list (deleted w) ?n = 0"
    by (auto simp: payload_inv_def split: if_splits)
  show ?thesis
    unfolding payload_inv_def
  proof (intro allI)
    fix a
    from assms have i: "if published w = Some a
        then heap w a \<noteq> None \<and> a < ?n \<and> count_list (deleted w) a = 0
        else heap w a = None \<and> count_list (deleted w) a = (if a < ?n then 1 else 0)"
      by (simp add: payload_inv_def)
    show "if published ?w2 = Some a
          then heap ?w2 a \<noteq> None \<and> a < next_addr ?w2 \<and> count_list (deleted ?w2) a = 0
          else heap ?w2 a = None \<and> count_list (deleted ?w2) a = (if a < next_addr ?w2 then 1 else 0)"
    proof (cases "published w")
      case None
      with i n show ?thesis
        by (cases "a = ?n") (simp_all add: set_with_data_fields p1)
    next
      case (Some a0)
      with assms have a0: "a0 < ?n" "count_list (deleted w) a0 = 0" "heap w a0 \<noteq> None"
        by (auto simp: payload_inv_def split: if_splits)
      with i n Some show ?thesis
        by (cases "a = ?n"; cases "a = a0") (simp_all add: set_with_data_fields p1)
    qed
  qed
qed

lemma inv_start: "\<forall>targets a. sel \<noteq> Core_offer targets a \<Longrightarrow> payload_inv (start sel)"
  by (auto simp: payload_inv_def start_def published_def split: selection.splits)

lemma inv_step: "payload_inv w \<Longrightarrow> payload_inv (step env e w)"
proof (cases e)
  case Read_file_paths
  assume "payload_inv w"
  then show ?thesis
    unfolding Read_file_paths
    by (cases "EnsureGtkInitialized env w")
       (use inv_Ensure [of env w] in \<open>auto simp: ReadFilePaths_def gtk_clipboard_wait_for_contents_def
          inv_called Let_def split: option.splits\<close>)
next
  case (Write_file_paths ps)
  assume i: "payload_inv w"
  obtain ok w1 where e: "EnsureGtkInitialized env w = (ok, w1)" by (cases "EnsureGtkInitialized env w")
  with i inv_Ensure [of env w] have i1: "payload_inv w1" by simp
  then have i2: "payload_inv (called Gtk_clipboard_get w1)" by (simp add: inv_called)
  have n: "next_addr (called Gtk_clipboard_get w1) = next_addr w1" by (simp add: called_def)
  from inv_publish [OF i2] show ?thesis
    unfolding Write_file_paths using e i1 i2
    by (simp add: WriteFilePaths_def Let_def inv_called)
next
  case Clear_clipboard
  assume i: "payload_inv w"
  obtain ok w1 where e: "EnsureGtkInitialized env w = (ok, w1)" by (cases "EnsureGtkInitialized env w")
  with i inv_Ensure [of env w] have i1: "payload_inv w1" by simp
  have r: "payload_inv (gtk_clipboard_clear (called c1 w1))" for c1
    unfolding gtk_clipboard_clear_def
    by (rule inv_release) (simp_all add: inv_called i1)
  show ?thesis
    unfolding Clear_clipboard using e i1 r
    by (simp add: ClearClipboard_def Let_def inv_called)
next
  case (Save_jpeg path compression_factor)
  assume "payload_inv w"
  then show ?thesis
    unfolding Save_jpeg
    by (cases "EnsureGtkInitialized env w")
       (use inv_Ensure [of env w] in \<open>auto simp: SaveClipboardImageAsJpeg_def
          gtk_clipboard_wait_for_image_def inv_called Let_def split: option.splits\<close>)
next
  case (Save_png path)
  assume "payload_inv w"
  then show ?thesis
    unfolding Save_png
    by (cases "EnsureGtkInitialized env w")
       (use inv_Ensure [of env w] in \<open>auto simp: SaveClipboardImageAsPng_def
          gtk_clipboard_wait_for_image_def inv_called Let_def split: option.splits\<close>)
next
  case (Put_image path)
  assume i: "payload_inv w"
  obtain ok w1 where e: "EnsureGtkInitialized env w = (ok, w1)" by (cases "EnsureGtkInitialized env w")
  with i inv_Ensure [of env w] have i1: "payload_inv w1" by simp
  have r: "payload_inv (gtk_clipboard_set_image pb (called c2 (called c1 w1)))" for pb c1 c2
    unfolding gtk_clipboard_set_image_def
    by (rule inv_release) (simp_all add: inv_called i1)
  show ?thesis
    unfolding Put_image using e i1 r
    by (auto simp: PutImageIntoClipboard_def Let_def inv_called split: option.splits)
next
  case Has_image
  assume "payload_inv w"
  then show ?thesis
    unfolding Has_image
    by (cases "EnsureGtkInitialized env w")
       (use inv_Ensure [of env w] in \<open>auto simp: ClipboardHasImage_def inv_called Let_def\<close>)
next
  case (New_owner offers img)
  assume "payload_inv w"
  then show ?thesis
    unfolding New_owner by (simp add: new_owner_def inv_release)
qed

lemma inv_run: "payload_inv w \<Longrightarrow> payload_inv (run es w)"
  by (induction es arbitrary: w) (auto simp: inv_step)

lemma WriteFilePaths_usable:
  assumes "fst (EnsureGtkInitialized env w)" and "gtk_clipboard_get env"
  shows "WriteFilePaths env ps w =
     called Gtk_clipboard_store
       (gtk_clipboard_set_with_data WriteFilePaths_targets (next_addr w)
          ((called Gtk_clipboard_get (snd (EnsureGtkInitialized env w)))
             \<lparr>heap := (heap w)(next_addr w \<mapsto> WriteFilePaths_payload (filename_to_uri env) ps),
              next_addr := next_addr w + 1\<rparr>))"
proof -
  obtain ok w1 where e: "EnsureGtkInitialized env w = (ok, w1)"
    by (cases "EnsureGtkInitialized env w")
  from Ensure_untouched [of env w] e
  have f: "heap w1 = heap w" "next_addr w1 = next_addr w" by simp_all
  from assms e f show ?thesis
    by (simp add: WriteFilePaths_def Let_def called_def)
qed

lemma WriteFilePaths_publishes:
  assumes "fst (EnsureGtkInitialized env w)" and "gtk_clipboard_get env"
  shows "clip (WriteFilePaths env ps w) = Core_offer WriteFilePaths_targets (next_addr w)"
    and "next_addr (WriteFilePaths env ps w) = next_addr w + 1"
    and "published w \<noteq> Some (next_addr w) \<Longrightarrow>
         heap (WriteFilePaths env ps w) (next_addr w)
           = Some (WriteFilePaths_payload (filename_to_uri env) ps)"
proof -
  let ?w1 = "snd (EnsureGtkInitialized env w)"
  have p: "published (called Gtk_clipboard_get ?w1) = published w"
    using Ensure_untouched [of env w] by (simp add: published_def called_def)
  show "clip (WriteFilePaths env ps w) = Core_offer WriteFilePaths_targets (next_addr w)"
    unfolding WriteFilePaths_usable [OF assms]
    by (simp add: called_def gtk_clipboard_set_with_data_def)
  show "next_addr (WriteFilePaths env ps w) = next_addr w + 1"
    unfolding WriteFilePaths_usable [OF assms]
    by (simp add: called_def set_with_data_fields)
  show "heap (WriteFilePaths env ps w) (next_addr w)
           = Some (WriteFilePaths_payload (filename_to_uri env) ps)"
    if "published w \<noteq> Some (next_addr w)"
    unfolding WriteFilePaths_usable [OF assms]
    using that p
    by (cases "published w") (simp_all add: called_def set_with_data_fields published_update)
qed

lemma to_gint_small: "n < 2 ^ 31 \<Longrightarrow> to_gint n = int n"
  by (simp add: to_gint_def)

lemma payload_a:
  "WriteFilePaths_payload g_filename_to_uri [''/a'']
     = \<lparr> uri_list = ''file:///a'' @ [CR, LF], plain_text = ''/a'' \<rparr>"
proof -
  have a: "uri_of_path g_filename_to_uri ''/a'' = Some ''file:///a''"
    by (simp add: uri_of_path_def c_str_simps to_uri_a)
  have "uri_list (WriteFilePaths_payload g_filename_to_uri [''/a'']) = ''file:///a'' @ [CR, LF]"
    using a by (simp add: uri_list_payload List.map_filter_simps)
  moreover have "plain_text (WriteFilePaths_payload g_filename_to_uri [''/a'']) = ''/a''"
    by (simp add: plain_text_payload)
  ultimately show ?thesis by (simp add: WriteFilePaths_payload_def)
qed

section \<open>C5: without a session every operation is neutral\<close>

text \<open>
  C5. When the session attachment did not succeed, every public operation returns its
  neutral failure value (the empty sequence for \<^verbatim>\<open>ReadFilePaths\<close>, false for the four
  boolean image operations, nothing done for \<^verbatim>\<open>WriteFilePaths\<close> and \<^verbatim>\<open>ClearClipboard\<close>)
  and the state it leaves is the one \<^verbatim>\<open>EnsureGtkInitialized\<close> leaves: the clipboard, the
  heap and the deletions are untouched, and the only session call made, if any, is the
  first \<^verbatim>\<open>gtk_init_check\<close>; no clipboard call is made.
\<close>

theorem no_session_neutral:
  assumes "attach_failed env w"
  shows "ReadFilePaths env w = ([], snd (EnsureGtkInitialized env w))
       \<and> WriteFilePaths env file_paths w = snd (EnsureGtkInitialized env w)
       \<and> ClearClipboard env w = snd (EnsureGtkInitialized env w)
       \<and> SaveClipboardImageAsJpeg env target_path compression_factor w = (False, snd (EnsureGtkInitialized env w))
       \<and> SaveClipboardImageAsPng env target_path w = (False, snd (EnsureGtkInitialized env w))
       \<and> PutImageIntoClipboard env image_path w = (False, snd (EnsureGtkInitialized env w))
       \<and> ClipboardHasImage env w = (False, snd (EnsureGtkInitialized env w))
       \<and> clip (snd (EnsureGtkInitialized env w)) = clip w
       \<and> heap (snd (EnsureGtkInitialized env w)) = heap w
       \<and> deleted (snd (EnsureGtkInitialized env w)) = deleted w
       \<and> calls (snd (EnsureGtkInitialized env w))
           = calls w @ (if attempted w then [] else [Gtk_init_check])"
proof -
  obtain ok w1 where e: "EnsureGtkInitialized env w = (ok, w1)"
    by (cases "EnsureGtkInitialized env w")
  with Ensure_failed [OF assms] have ok: "\<not> ok" by simp
  from e ok show ?thesis
    using Ensure_untouched [of env w] by (simp add: operation_defs)
qed

theorem no_session_neutral_witness:
  "attach_failed headless (start (Image_selection 7))
   \<and> ReadFilePaths headless (start (Image_selection 7))
       = ([], (start (Image_selection 7))\<lparr>attempted := True, calls := [Gtk_init_check]\<rparr>)
   \<and> WriteFilePaths headless [''/a''] (start (Image_selection 7))
       = (start (Image_selection 7))\<lparr>attempted := True, calls := [Gtk_init_check]\<rparr>
   \<and> ClipboardHasImage headless (start (Image_selection 7))
       = (False, (start (Image_selection 7))\<lparr>attempted := True, calls := [Gtk_init_check]\<rparr>)
   \<and> clip (snd (EnsureGtkInitialized headless (start (Image_selection 7)))) = Image_selection 7"
proof -
  have h: "attach_failed headless (start (Image_selection 7))"
    by (simp add: attach_failed_def headless_def start_def)
  have e: "snd (EnsureGtkInitialized headless (start (Image_selection 7)))
           = (start (Image_selection 7))\<lparr>attempted := True, calls := [Gtk_init_check]\<rparr>"
    by (simp add: EnsureGtkInitialized_def headless_def start_def called_def Let_def)
  have c: "clip ((start (Image_selection 7))\<lparr>attempted := True, calls := [Gtk_init_check]\<rparr>) = Image_selection 7"
    by (simp add: start_def)
  from no_session_neutral [OF h, of "[''/a'']"] h show ?thesis
    unfolding e c by simp
qed

section \<open>C6: the session handle changes at most once\<close>

text \<open>
  C6. The session handle leaves "not attempted" at most once, for "acquired" or "failed".
  Once it is acquired or failed, no history of operations and foreign selection changes
  alters it or calls \<^verbatim>\<open>gtk_init_check\<close> again, and \<^verbatim>\<open>EnsureGtkInitialized\<close> answers the
  memoized outcome without touching the state; the first call of \<^verbatim>\<open>EnsureGtkInitialized\<close>
  moves the handle to acquired or failed according to the probing attach. From the start of
  the process, \<^verbatim>\<open>gtk_init_check\<close> is called at most once, and not at all exactly as long as
  the handle is "not attempted".
\<close>

theorem session_handle_once:
  "(session_handle w \<noteq> Not_attempted \<longrightarrow>
        session_handle (run es w) = session_handle w
      \<and> count_list (calls (run es w)) Gtk_init_check = count_list (calls w) Gtk_init_check
      \<and> EnsureGtkInitialized env (run es w) = (session_handle w = Acquired, run es w))
   \<and> (session_handle w = Not_attempted \<longrightarrow>
        session_handle (snd (EnsureGtkInitialized env w))
          = (if gtk_init_check env then Acquired else Failed))
   \<and> count_list (calls (run es (start sel))) Gtk_init_check \<le> 1
   \<and> (count_list (calls (run es (start sel))) Gtk_init_check = 0)
       = (session_handle (run es (start sel)) = Not_attempted)"
proof -
  have 1: "session_handle (run es w) = session_handle w
      \<and> count_list (calls (run es w)) Gtk_init_check = count_list (calls w) Gtk_init_check
      \<and> EnsureGtkInitialized env (run es w) = (session_handle w = Acquired, run es w)"
    if "session_handle w \<noteq> Not_attempted"
  proof -
    from that have a: "attempted w" by (simp add: session_handle_def split: if_splits)
    from run_attempted [OF a, of es] a show ?thesis
      by (simp add: session_handle_def EnsureGtkInitialized_def)
  qed
  have 2: "session_handle (snd (EnsureGtkInitialized env w))
          = (if gtk_init_check env then Acquired else Failed)"
    if "session_handle w = Not_attempted"
    using that
    by (simp add: session_handle_def EnsureGtkInitialized_def called_def Let_def split: if_splits)
  have s: "\<not> attempted (start sel)" "calls (start sel) = []" by (simp_all add: start_def)
  from run_count [of es "start sel"] s
  have c: "count_list (calls (run es (start sel))) Gtk_init_check
             = (if attempted (run es (start sel)) then 1 else 0)"
    by simp
  then have 3: "count_list (calls (run es (start sel))) Gtk_init_check \<le> 1" by simp
  from c have 4: "(count_list (calls (run es (start sel))) Gtk_init_check = 0)
       = (session_handle (run es (start sel)) = Not_attempted)"
    by (simp add: session_handle_def)
  from 1 2 3 4 show ?thesis by blast
qed

theorem session_handle_once_witness:
  "session_handle (start No_selection) = Not_attempted
   \<and> session_handle (step headless Read_file_paths (start No_selection)) = Failed
   \<and> session_handle (run [(desktop, Write_file_paths [''/a'']), (desktop, Has_image)]
        (step headless Read_file_paths (start No_selection))) = Failed
   \<and> count_list (calls (run [(desktop, Write_file_paths [''/a'']), (desktop, Has_image)]
        (step headless Read_file_paths (start No_selection)))) Gtk_init_check = 1
   \<and> fst (EnsureGtkInitialized desktop (run [(desktop, Write_file_paths [''/a'']), (desktop, Has_image)]
        (step headless Read_file_paths (start No_selection)))) = False"
proof -
  let ?w1 = "step headless Read_file_paths (start No_selection)"
  let ?es = "[(desktop, Write_file_paths [''/a'']), (desktop, Has_image)]"
  have s0: "session_handle (start No_selection) = Not_attempted"
    by (simp add: evaluation_defs)
  have s1: "session_handle ?w1 = Failed"
    by (simp add: evaluation_defs)
  have c1: "count_list (calls ?w1) Gtk_init_check = 1"
    by (simp add: evaluation_defs)
  from s1 have h: "session_handle ?w1 \<noteq> Not_attempted" by simp
  from session_handle_once [of ?w1 ?es desktop] h
  have k: "session_handle (run ?es ?w1) = session_handle ?w1"
    "count_list (calls (run ?es ?w1)) Gtk_init_check = count_list (calls ?w1) Gtk_init_check"
    "EnsureGtkInitialized desktop (run ?es ?w1) = (session_handle ?w1 = Acquired, run ?es ?w1)"
    by blast+
  from k s0 s1 c1 show ?thesis by simp
qed

section \<open>C7: a payload lives from publication to clearance\<close>

text \<open>
  C7. In every state the process can reach from its start (operations of the host and
  other applications taking the selection, in any order), the payload that the clipboard
  holds is on the heap and has never been deleted; every other payload ever allocated is
  off the heap and has been deleted exactly once (never leaked, never deleted twice), and
  nothing that was not allocated has been deleted. A \<^verbatim>\<open>WriteFilePaths\<close> in a usable session
  allocates one fresh payload and publishes it. The deletions are those of
  \<^verbatim>\<open>clipboard_clear_func\<close>, which the session calls once when an offer loses the selection;
  the state has no component besides the clipboard in which the program could keep the
  address.
\<close>

theorem payload_lifetime:
  assumes "\<forall>targets a. sel \<noteq> Core_offer targets a"
  shows "(published (run es (start sel)) = Some a \<longrightarrow>
            heap (run es (start sel)) a \<noteq> None
          \<and> a < next_addr (run es (start sel))
          \<and> count_list (deleted (run es (start sel))) a = 0)
       \<and> (published (run es (start sel)) \<noteq> Some a \<longrightarrow>
            heap (run es (start sel)) a = None
          \<and> count_list (deleted (run es (start sel))) a
              = (if a < next_addr (run es (start sel)) then 1 else 0))
       \<and> (fst (EnsureGtkInitialized env (run es (start sel))) \<and> gtk_clipboard_get env \<longrightarrow>
            published (WriteFilePaths env ps (run es (start sel)))
              = Some (next_addr (run es (start sel)))
          \<and> heap (WriteFilePaths env ps (run es (start sel))) (next_addr (run es (start sel)))
              = Some (WriteFilePaths_payload (filename_to_uri env) ps)
          \<and> next_addr (WriteFilePaths env ps (run es (start sel)))
              = next_addr (run es (start sel)) + 1)"
proof -
  let ?w = "run es (start sel)"
  have i: "payload_inv ?w" by (rule inv_run) (rule inv_start [OF assms])
  then have 1: "if published ?w = Some a
          then heap ?w a \<noteq> None \<and> a < next_addr ?w \<and> count_list (deleted ?w) a = 0
          else heap ?w a = None \<and> count_list (deleted ?w) a = (if a < next_addr ?w then 1 else 0)"
    by (simp add: payload_inv_def)
  from i have fresh: "published ?w \<noteq> Some (next_addr ?w)"
    by (auto simp: payload_inv_def split: if_splits)
  have 2: "published (WriteFilePaths env ps ?w) = Some (next_addr ?w)
          \<and> heap (WriteFilePaths env ps ?w) (next_addr ?w)
              = Some (WriteFilePaths_payload (filename_to_uri env) ps)
          \<and> next_addr (WriteFilePaths env ps ?w) = next_addr ?w + 1"
    if u: "fst (EnsureGtkInitialized env ?w) \<and> gtk_clipboard_get env"
  proof -
    from u have a: "fst (EnsureGtkInitialized env ?w)" and b: "gtk_clipboard_get env" by simp_all
    from WriteFilePaths_publishes [OF a b, of ps] fresh show ?thesis
      by (simp add: published_def)
  qed
  from 1 2 show ?thesis by (simp split: if_splits)
qed

theorem payload_lifetime_witness:
  "published (run [(desktop, Write_file_paths [''/a'']), (desktop, Write_file_paths [''/b''])]
       (start No_selection)) = Some 1
   \<and> heap (run [(desktop, Write_file_paths [''/a'']), (desktop, Write_file_paths [''/b''])]
       (start No_selection)) 1 \<noteq> None
   \<and> count_list (deleted (run [(desktop, Write_file_paths [''/a'']), (desktop, Write_file_paths [''/b''])]
       (start No_selection))) 1 = 0
   \<and> heap (run [(desktop, Write_file_paths [''/a'']), (desktop, Write_file_paths [''/b''])]
       (start No_selection)) 0 = None
   \<and> count_list (deleted (run [(desktop, Write_file_paths [''/a'']), (desktop, Write_file_paths [''/b''])]
       (start No_selection))) 0 = 1
   \<and> next_addr (run [(desktop, Write_file_paths [''/a'']), (desktop, Write_file_paths [''/b''])]
       (start No_selection)) = 2"
proof -
  let ?es = "[(desktop, Write_file_paths [''/a'']), (desktop, Write_file_paths [''/b''])]"
  let ?w = "run ?es (start No_selection)"
  have sel: "\<forall>targets a. No_selection \<noteq> Core_offer targets a" by simp
  have p: "published ?w = Some 1"
    by (simp add: evaluation_defs)
  have n: "next_addr ?w = 2"
    by (simp add: evaluation_defs)
  from p have q: "published ?w \<noteq> Some 0" by simp
  from payload_lifetime [OF sel, of ?es 1] p
  have a: "heap ?w 1 \<noteq> None" "count_list (deleted ?w) 1 = 0" by blast+
  from payload_lifetime [OF sel, of ?es 0] q
  have b: "heap ?w 0 = None" "count_list (deleted ?w) 0 = (if 0 < next_addr ?w then 1 else 0)"
    by blast+
  from p n a b show ?thesis by simp
qed

section \<open>C8: the three targets and the provide callback\<close>

text \<open>
  C8. \<^verbatim>\<open>clipboard_get_func\<close>, given a payload and the requested tag, stores the URI-list
  bytes for tag 0 and the plain-text bytes for any other tag, with format 8 and the length
  of the bytes (as a \<^verbatim>\<open>gint\<close>, equal to the length below \<open>2^31\<close>). A \<^verbatim>\<open>WriteFilePaths\<close> in a
  usable session, in any state reachable from the start, publishes exactly the three
  targets \<^verbatim>\<open>text/uri-list\<close> with tag 0, \<^verbatim>\<open>UTF8_STRING\<close> and \<^verbatim>\<open>STRING\<close> with tag 1; a request
  for one of them is answered by the callback on the payload just built with that tag, and
  a request for any other target gets nothing.
\<close>

theorem write_offers_three_targets:
  "clipboard_get_func (Some payload) tag =
     Some \<lparr> sel_type = (if tag = 0 then ''text/uri-list'' else ''UTF8_STRING''),
            sel_format = 8,
            sel_data = Some (if tag = 0 then uri_list payload else plain_text payload),
            sel_length = to_gint (length (if tag = 0 then uri_list payload else plain_text payload)) \<rparr>
   \<and> (n < 2 ^ 31 \<longrightarrow> to_gint n = int n)
   \<and> ((\<forall>targets a. sel \<noteq> Core_offer targets a)
        \<and> fst (EnsureGtkInitialized env (run es (start sel))) \<and> gtk_clipboard_get env \<longrightarrow>
        clip (WriteFilePaths env ps (run es (start sel))) =
          Core_offer
            [ \<lparr> target = ''text/uri-list'', flags = 0, info = 0 \<rparr>,
              \<lparr> target = ''UTF8_STRING'', flags = 0, info = 1 \<rparr>,
              \<lparr> target = ''STRING'', flags = 0, info = 1 \<rparr> ]
            (next_addr (run es (start sel)))
      \<and> request_target ''text/uri-list'' (WriteFilePaths env ps (run es (start sel)))
          = clipboard_get_func (Some (WriteFilePaths_payload (filename_to_uri env) ps)) 0
      \<and> request_target ''UTF8_STRING'' (WriteFilePaths env ps (run es (start sel)))
          = clipboard_get_func (Some (WriteFilePaths_payload (filename_to_uri env) ps)) 1
      \<and> request_target ''STRING'' (WriteFilePaths env ps (run es (start sel)))
          = clipboard_get_func (Some (WriteFilePaths_payload (filename_to_uri env) ps)) 1
      \<and> (tgt \<notin> {''text/uri-list'', ''UTF8_STRING'', ''STRING''} \<longrightarrow>
           request_target tgt (WriteFilePaths env ps (run es (start sel))) = None))"
proof -
  let ?w = "run es (start sel)"
  let ?P = "WriteFilePaths_payload (filename_to_uri env) ps"
  have 1: "clipboard_get_func (Some payload) tag =
     Some \<lparr> sel_type = (if tag = 0 then ''text/uri-list'' else ''UTF8_STRING''),
            sel_format = 8,
            sel_data = Some (if tag = 0 then uri_list payload else plain_text payload),
            sel_length = to_gint (length (if tag = 0 then uri_list payload else plain_text payload)) \<rparr>"
    by (simp add: clipboard_get_func_def)
  have 2: "n < 2 ^ 31 \<longrightarrow> to_gint n = int n"
    by (simp add: to_gint_small)
  have 3: "clip (WriteFilePaths env ps ?w) =
          Core_offer
            [ \<lparr> target = ''text/uri-list'', flags = 0, info = 0 \<rparr>,
              \<lparr> target = ''UTF8_STRING'', flags = 0, info = 1 \<rparr>,
              \<lparr> target = ''STRING'', flags = 0, info = 1 \<rparr> ]
            (next_addr ?w)
      \<and> request_target ''text/uri-list'' (WriteFilePaths env ps ?w) = clipboard_get_func (Some ?P) 0
      \<and> request_target ''UTF8_STRING'' (WriteFilePaths env ps ?w) = clipboard_get_func (Some ?P) 1
      \<and> request_target ''STRING'' (WriteFilePaths env ps ?w) = clipboard_get_func (Some ?P) 1
      \<and> (tgt \<notin> {''text/uri-list'', ''UTF8_STRING'', ''STRING''} \<longrightarrow>
           request_target tgt (WriteFilePaths env ps ?w) = None)"
    if h: "(\<forall>targets a. sel \<noteq> Core_offer targets a)
        \<and> fst (EnsureGtkInitialized env ?w) \<and> gtk_clipboard_get env"
  proof -
    from h have s: "\<forall>targets a. sel \<noteq> Core_offer targets a"
      and a: "fst (EnsureGtkInitialized env ?w)" and b: "gtk_clipboard_get env" by simp_all
    have "payload_inv ?w" by (rule inv_run) (rule inv_start [OF s])
    then have fresh: "published ?w \<noteq> Some (next_addr ?w)"
      by (auto simp: payload_inv_def split: if_splits)
    from WriteFilePaths_publishes [OF a b, of ps] fresh
    have c: "clip (WriteFilePaths env ps ?w) = Core_offer WriteFilePaths_targets (next_addr ?w)"
      and hp: "heap (WriteFilePaths env ps ?w) (next_addr ?w) = Some ?P"
      by simp_all
    from c hp show ?thesis
      by (auto simp: request_target_def WriteFilePaths_targets_def)
  qed
  from 1 2 3 show ?thesis by blast
qed

theorem write_offers_three_targets_witness:
  "fst (EnsureGtkInitialized desktop (run [] (start No_selection)))
   \<and> gtk_clipboard_get desktop
   \<and> clip (WriteFilePaths desktop [''/a''] (run [] (start No_selection))) =
          Core_offer
            [ \<lparr> target = ''text/uri-list'', flags = 0, info = 0 \<rparr>,
              \<lparr> target = ''UTF8_STRING'', flags = 0, info = 1 \<rparr>,
              \<lparr> target = ''STRING'', flags = 0, info = 1 \<rparr> ] 0
   \<and> request_target ''text/uri-list'' (WriteFilePaths desktop [''/a''] (run [] (start No_selection)))
       = Some \<lparr> sel_type = ''text/uri-list'', sel_format = 8,
                sel_data = Some (''file:///a'' @ [CR, LF]), sel_length = 11 \<rparr>
   \<and> request_target ''STRING'' (WriteFilePaths desktop [''/a''] (run [] (start No_selection)))
       = Some \<lparr> sel_type = ''UTF8_STRING'', sel_format = 8,
                sel_data = Some ''/a'', sel_length = 2 \<rparr>
   \<and> request_target ''text/html'' (WriteFilePaths desktop [''/a''] (run [] (start No_selection))) = None"
proof -
  let ?w = "run [] (start No_selection)"
  let ?W = "WriteFilePaths desktop [''/a''] ?w"
  have s: "\<forall>targets a. No_selection \<noteq> Core_offer targets a" by simp
  have u: "fst (EnsureGtkInitialized desktop ?w)"
    by (simp add: evaluation_defs)
  have g: "gtk_clipboard_get desktop" by (simp add: desktop_def)
  have f: "filename_to_uri desktop = g_filename_to_uri" by (simp add: desktop_def)
  have n: "next_addr ?w = 0" by (simp add: start_def)
  have t: "''text/html'' \<notin> {''text/uri-list'', ''UTF8_STRING'', ''STRING''}" by simp
  have l11: "to_gint 11 = 11"
    using write_offers_three_targets [of _ _ 11] by simp
  have l2: "to_gint 2 = 2"
    using write_offers_three_targets [of _ _ 2] by simp
  have h: "(\<forall>targets a. No_selection \<noteq> Core_offer targets a)
        \<and> fst (EnsureGtkInitialized desktop ?w) \<and> gtk_clipboard_get desktop"
    using s u g by (intro conjI)
  note T = write_offers_three_targets
    [of _ _ _ No_selection desktop "[]" "[''/a'']" "''text/html''",
     THEN conjunct2, THEN conjunct2, THEN mp, OF h]
  have c: "clip ?W = Core_offer
            [ \<lparr> target = ''text/uri-list'', flags = 0, info = 0 \<rparr>,
              \<lparr> target = ''UTF8_STRING'', flags = 0, info = 1 \<rparr>,
              \<lparr> target = ''STRING'', flags = 0, info = 1 \<rparr> ] (next_addr ?w)"
    and r0: "request_target ''text/uri-list'' ?W
          = clipboard_get_func (Some (WriteFilePaths_payload (filename_to_uri desktop) [''/a''])) 0"
    and r1: "request_target ''STRING'' ?W
          = clipboard_get_func (Some (WriteFilePaths_payload (filename_to_uri desktop) [''/a''])) 1"
    and r2: "request_target ''text/html'' ?W = None"
    using T t by simp_all
  have len11: "length (''file:///a'' @ [CR, LF]) = 11" by simp
  have len2: "length ''/a'' = 2" by simp
  have g0: "clipboard_get_func (Some (WriteFilePaths_payload g_filename_to_uri [''/a''])) 0
      = Some \<lparr> sel_type = ''text/uri-list'', sel_format = 8,
                sel_data = Some (''file:///a'' @ [CR, LF]), sel_length = 11 \<rparr>"
    unfolding payload_a clipboard_get_func_def using l11 len11 by (simp del: length_append list.size)
  have g1: "clipboard_get_func (Some (WriteFilePaths_payload g_filename_to_uri [''/a''])) 1
      = Some \<lparr> sel_type = ''UTF8_STRING'', sel_format = 8,
                sel_data = Some ''/a'', sel_length = 2 \<rparr>"
    unfolding payload_a clipboard_get_func_def using l2 len2 by (simp del: length_append list.size)
  from u g c r0 r1 r2 show ?thesis
    unfolding f g0 g1 n by (intro conjI)
qed

section \<open>The quality of a saved JPEG\<close>




















section \<open>C9: the JPEG quality\<close>




end
